theory Spec2Isabelle
  imports Complex_Main "HOL-Library.Word"
begin

unbundle bit_operations_syntax

section \<open>Buffers, errors and the reads of the binary parser\<close>

text \<open>
  The PCF file is a Node \<^verbatim>\<open>Buffer\<close>: a list of bytes. Every number the parser reads is an
  unsigned integer of at most 32 bits held in a JavaScript number, so the values are
  natural numbers and the arithmetic on them (\<^verbatim>\<open>4 * glyphCount + 4\<close>) never wraps.

  The source builds its decoders from the \<^verbatim>\<open>binary-parser\<close> package. The package's
  reads are modelled as Node's buffer reads behave: a read of \<open>n\<close> bytes at an offset
  returns the value and moves the offset by \<open>n\<close>; a read whose bytes are not all inside
  the buffer throws \<^verbatim>\<open>RangeError\<close>. An exception is a value \<open>Inl e\<close>; nothing catches
  exceptions in the source, so the first one ends the whole run.
\<close>

type_synonym byte = "8 word"
type_synonym buffer = "byte list"

datatype error = RangeError | TypeError | Error string

datatype endian = Little | Big

fun leValue :: "byte list \<Rightarrow> nat" where
  "leValue [] = 0"
| "leValue (b # bs) = unat b + 256 * leValue bs"

definition beValue :: "byte list \<Rightarrow> nat" where
  "beValue bs = leValue (rev bs)"

definition bytesValue :: "endian \<Rightarrow> byte list \<Rightarrow> nat" where
  "bytesValue e bs = (case e of Little \<Rightarrow> leValue bs | Big \<Rightarrow> beValue bs)"

definition bindE :: "error + 'a \<Rightarrow> ('a \<Rightarrow> error + 'b) \<Rightarrow> error + 'b" where
  "bindE m f = (case m of Inl e \<Rightarrow> Inl e | Inr x \<Rightarrow> f x)"

text \<open>\<^verbatim>\<open>buffer.slice(start, end)\<close> for non-negative bounds: clamped to the buffer.\<close>

definition bufferSlice :: "buffer \<Rightarrow> nat \<Rightarrow> nat \<Rightarrow> buffer" where
  "bufferSlice buf start end = take (end - start) (drop start buf)"

text \<open>
  A parser step takes the buffer and the current offset and returns the value read and the
  next offset. \<open>readUInt e n\<close> is \<^verbatim>\<open>uint8\<close>, \<^verbatim>\<open>uint16\<close> or \<^verbatim>\<open>uint32\<close> (\<open>n\<close> = 1, 2, 4) under
  the endianness \<open>e\<close> in force.
\<close>

definition readUInt :: "endian \<Rightarrow> nat \<Rightarrow> buffer \<Rightarrow> nat \<Rightarrow> error + (nat \<times> nat)" where
  "readUInt e n buf off =
     (if off + n \<le> length buf
      then Inr (bytesValue e (bufferSlice buf off (off + n)), off + n)
      else Inl RangeError)"

definition uint8 :: "buffer \<Rightarrow> nat \<Rightarrow> error + (nat \<times> nat)" where
  "uint8 = readUInt Little 1"

definition uint16 :: "endian \<Rightarrow> buffer \<Rightarrow> nat \<Rightarrow> error + (nat \<times> nat)" where
  "uint16 e = readUInt e 2"

definition uint32 :: "endian \<Rightarrow> buffer \<Rightarrow> nat \<Rightarrow> error + (nat \<times> nat)" where
  "uint32 e = readUInt e 4"

text \<open>
  \<^verbatim>\<open>.array(name, {type, length})\<close>: the package's loop reads one item per round,
  \<open>length\<close> times, so a length that is zero or negative reads nothing.
\<close>

primrec readArray ::
  "(buffer \<Rightarrow> nat \<Rightarrow> error + ('a \<times> nat)) \<Rightarrow> nat \<Rightarrow> buffer \<Rightarrow> nat \<Rightarrow> error + ('a list \<times> nat)"
where
  "readArray item 0 buf off = Inr ([], off)"
| "readArray item (Suc n) buf off =
     bindE (item buf off) (\<lambda>(v, off1).
     bindE (readArray item n buf off1) (\<lambda>(vs, off2).
     Inr (v # vs, off2)))"

text \<open>
  \<^verbatim>\<open>.string(name, {zeroTerminated: true})\<close>: bytes are read one by one up to the first
  NUL; running off the buffer before a NUL is a failed read. The package then decodes the
  bytes read as UTF-8 into a JavaScript string. The decoding is not modelled: the value
  kept here is the bytes before the NUL, of which the decoded string is a function (for
  ASCII bytes, the string of these characters). Whether the read succeeds and where it
  ends do not depend on the decoding, and a glyph name is only carried along to the font.
\<close>

definition readCString :: "buffer \<Rightarrow> nat \<Rightarrow> error + byte list" where
  "readCString buf off =
     (if 0 \<in> set (drop off buf) then Inr (takeWhile (\<lambda>b. b \<noteq> 0) (drop off buf))
      else Inl RangeError)"

section \<open>The PCF tables\<close>

record TableDirectoryEntry =
  type :: nat
  format :: nat
  byteSize :: nat
  offset :: nat

record GlyphNameTable =
  format :: nat
  glyphCount :: nat
  offsets :: "nat list"
  stringSize :: nat
  strings :: "byte list list"

record EncodingTable =
  format :: nat
  minCharOrByte2 :: nat
  maxCharOrByte2 :: nat
  minByte1 :: nat
  maxByte1 :: nat
  defaultChar :: nat
  glyphIndeces :: "nat list"

record MetricsEntry =
  leftSidedBearing :: int
  rightSideBearing :: int
  characterWidth :: int
  characterAscent :: int
  characterDescent :: int
  characterAttributes :: int

record MetricsTable =
  format :: nat
  metricsCount :: nat
  metrics :: "MetricsEntry list"

record BitmapTable =
  format :: nat
  glyphCount :: nat
  offsets :: "nat list"
  bitmapSizes :: "nat list"
  bitmapSize :: nat
  bitmapsBaseOffset :: nat

record pcf =
  header :: "byte list"
  tableCount :: nat
  tocEntry :: "TableDirectoryEntry list"
  glyphNameTable :: "GlyphNameTable option"
  encodingTable :: "EncodingTable option"
  metricsTable :: "MetricsTable option"
  bitmapTable :: "BitmapTable option"

record PcfParser =
  rawBuffer :: buffer
  pcf :: "pcf option"

section \<open>pcf-parser.js\<close>

subsection \<open>Format flags\<close>

text \<open>
  \<^verbatim>\<open>tableTypeToString\<close>: one name per set bit 0..8 of the type, joined with \<^verbatim>\<open>' | '\<close>.
\<close>

fun joinStrings :: "string list \<Rightarrow> string" where
  "joinStrings [] = ''''"
| "joinStrings [s] = s"
| "joinStrings (s # t # ss) = s @ '' | '' @ joinStrings (t # ss)"

definition tableTypeToString :: "nat \<Rightarrow> string" where
  "tableTypeToString ty = joinStrings (
     (if ty AND 1 \<noteq> 0 then [''PCF_PROPERTIES''] else []) @
     (if ty AND 2 \<noteq> 0 then [''PCF_ACCELERATORS''] else []) @
     (if ty AND 4 \<noteq> 0 then [''PCF_METRICS''] else []) @
     (if ty AND 8 \<noteq> 0 then [''PCF_BITMAPS''] else []) @
     (if ty AND 16 \<noteq> 0 then [''PCF_INK_METRICS''] else []) @
     (if ty AND 32 \<noteq> 0 then [''PCF_BDF_ENCODINGS''] else []) @
     (if ty AND 64 \<noteq> 0 then [''PCF_SWIDTHS''] else []) @
     (if ty AND 128 \<noteq> 0 then [''PCF_GLYPH_NAMES''] else []) @
     (if ty AND 256 \<noteq> 0 then [''PCF_BDF_ACCELERATORS''] else []))"

definition isCompressedMetrics :: "nat \<Rightarrow> bool" where
  "isCompressedMetrics fmt = (fmt AND 0xFFFFFF00 = 0x100)"

text \<open>
  \<^verbatim>\<open>getEndianessFromFormat\<close> returns the endianness name and the suffix for typed array
  items; both come from the same test \<^verbatim>\<open>format & 1 << 2\<close>.
\<close>

definition getEndianessFromFormat :: "nat \<Rightarrow> endian \<times> endian" where
  "getEndianessFromFormat fmt =
     (if fmt AND 4 \<noteq> 0 then Big else Little, if fmt AND 4 \<noteq> 0 then Big else Little)"

subsection \<open>The table decoders\<close>

definition stringBaseOffset :: "nat \<Rightarrow> nat" where
  "stringBaseOffset count = 4 * 2 + 4 * count + 4"

fun parseStrings :: "buffer \<Rightarrow> nat \<Rightarrow> nat list \<Rightarrow> error + byte list list" where
  "parseStrings buf base [] = Inr []"
| "parseStrings buf base (stringOffset # rest) =
     bindE (readCString buf (base + stringOffset)) (\<lambda>s.
     bindE (parseStrings buf base rest) (\<lambda>ss.
     Inr (s # ss)))"

definition parseGlyphNameTable :: "buffer \<Rightarrow> nat \<Rightarrow> nat \<Rightarrow> error + GlyphNameTable" where
  "parseGlyphNameTable buf off fmt =
     (case getEndianessFromFormat fmt of (endianess, endianessSuffix) \<Rightarrow>
      bindE (uint32 Little buf off) (\<lambda>(tformat, o1).
      bindE (uint32 endianess buf o1) (\<lambda>(count, o2).
      bindE (readArray (uint32 endianessSuffix) count buf o2) (\<lambda>(offs, o3).
      bindE (uint32 endianess buf o3) (\<lambda>(ssize, o4).
      bindE (parseStrings buf (off + stringBaseOffset count) offs) (\<lambda>strs.
      Inr \<lparr>GlyphNameTable.format = tformat, glyphCount = count, offsets = offs,
           stringSize = ssize, strings = strs\<rparr>))))))"

text \<open>
  The number of glyph indices is a product of two differences of unsigned 16-bit values;
  it is computed in the integers and may be zero or negative.
\<close>

definition encodingLength :: "nat \<Rightarrow> nat \<Rightarrow> nat \<Rightarrow> nat \<Rightarrow> int" where
  "encodingLength minC2 maxC2 minB1 maxB1 =
     (int maxC2 - int minC2 + 1) * (int maxB1 - int minB1 + 1)"

definition parseEncodingTable :: "buffer \<Rightarrow> nat \<Rightarrow> nat \<Rightarrow> error + EncodingTable" where
  "parseEncodingTable buf off fmt =
     (case getEndianessFromFormat fmt of (endianess, endianessSuffix) \<Rightarrow>
      bindE (uint32 Little buf off) (\<lambda>(tformat, o1).
      bindE (uint16 endianess buf o1) (\<lambda>(minC2, o2).
      bindE (uint16 endianess buf o2) (\<lambda>(maxC2, o3).
      bindE (uint16 endianess buf o3) (\<lambda>(minB1, o4).
      bindE (uint16 endianess buf o4) (\<lambda>(maxB1, o5).
      bindE (uint16 endianess buf o5) (\<lambda>(dflt, o6).
      bindE (readArray (uint16 endianessSuffix)
               (nat (encodingLength minC2 maxC2 minB1 maxB1)) buf o6) (\<lambda>(idx, o7).
      Inr \<lparr>EncodingTable.format = tformat, minCharOrByte2 = minC2, maxCharOrByte2 = maxC2,
           minByte1 = minB1, maxByte1 = maxB1, defaultChar = dflt,
           glyphIndeces = idx\<rparr>))))))))"

text \<open>
  The entry parser of a compressed metrics table reads five unsigned bytes; the loop after
  the parse subtracts \<open>0x80\<close> from each and sets the attributes to 0.
\<close>

definition compressedEntryParser :: "buffer \<Rightarrow> nat \<Rightarrow> error + (MetricsEntry \<times> nat)" where
  "compressedEntryParser buf off =
     bindE (uint8 buf off) (\<lambda>(lsb, o1).
     bindE (uint8 buf o1) (\<lambda>(rsb, o2).
     bindE (uint8 buf o2) (\<lambda>(cw, o3).
     bindE (uint8 buf o3) (\<lambda>(asc, o4).
     bindE (uint8 buf o4) (\<lambda>(desc, o5).
     Inr (\<lparr>leftSidedBearing = int lsb, rightSideBearing = int rsb, characterWidth = int cw,
           characterAscent = int asc, characterDescent = int desc,
           characterAttributes = 0\<rparr>, o5))))))"

definition rebias :: "MetricsEntry \<Rightarrow> MetricsEntry" where
  "rebias entry =
     \<lparr>leftSidedBearing = leftSidedBearing entry - 0x80,
      rightSideBearing = rightSideBearing entry - 0x80,
      characterWidth = characterWidth entry - 0x80,
      characterAscent = characterAscent entry - 0x80,
      characterDescent = characterDescent entry - 0x80,
      characterAttributes = 0\<rparr>"

definition defaultEntryParser :: "endian \<Rightarrow> buffer \<Rightarrow> nat \<Rightarrow> error + (MetricsEntry \<times> nat)" where
  "defaultEntryParser endianess buf off =
     bindE (uint16 endianess buf off) (\<lambda>(lsb, o1).
     bindE (uint16 endianess buf o1) (\<lambda>(rsb, o2).
     bindE (uint16 endianess buf o2) (\<lambda>(cw, o3).
     bindE (uint16 endianess buf o3) (\<lambda>(asc, o4).
     bindE (uint16 endianess buf o4) (\<lambda>(desc, o5).
     bindE (uint16 endianess buf o5) (\<lambda>(attr, o6).
     Inr (\<lparr>leftSidedBearing = int lsb, rightSideBearing = int rsb, characterWidth = int cw,
           characterAscent = int asc, characterDescent = int desc,
           characterAttributes = int attr\<rparr>, o6)))))))"

definition parseMetricsTable :: "buffer \<Rightarrow> nat \<Rightarrow> nat \<Rightarrow> error + MetricsTable" where
  "parseMetricsTable buf off fmt =
     (case getEndianessFromFormat fmt of (endianess, endianessSuffix) \<Rightarrow>
      if isCompressedMetrics fmt then
        bindE (uint32 Little buf off) (\<lambda>(tformat, o1).
        bindE (uint16 endianess buf o1) (\<lambda>(count, o2).
        bindE (readArray compressedEntryParser count buf o2) (\<lambda>(entries, o3).
        Inr \<lparr>MetricsTable.format = tformat, metricsCount = count,
             metrics = map rebias entries\<rparr>)))
      else
        bindE (uint32 Little buf off) (\<lambda>(tformat, o1).
        bindE (uint32 endianess buf o1) (\<lambda>(count, o2).
        bindE (readArray (defaultEntryParser endianess) count buf o2) (\<lambda>(entries, o3).
        Inr \<lparr>MetricsTable.format = tformat, metricsCount = count,
             metrics = entries\<rparr>))))"

definition parseBitmapTable :: "buffer \<Rightarrow> nat \<Rightarrow> nat \<Rightarrow> error + BitmapTable" where
  "parseBitmapTable buf off fmt =
     (case getEndianessFromFormat fmt of (endianess, endianessSuffix) \<Rightarrow>
      bindE (uint32 Little buf off) (\<lambda>(tformat, o1).
      bindE (uint32 endianess buf o1) (\<lambda>(count, o2).
      bindE (readArray (uint32 endianessSuffix) count buf o2) (\<lambda>(offs, o3).
      bindE (readArray (uint32 endianessSuffix) 4 buf o3) (\<lambda>(sizes, o4).
      Inr \<lparr>BitmapTable.format = tformat, glyphCount = count, offsets = offs,
           bitmapSizes = sizes, bitmapSize = sizes ! (tformat AND 3),
           bitmapsBaseOffset = off + 4 * 2 + 4 * count + 4 * 4\<rparr>)))))"

subsection \<open>The table directory and \<^verbatim>\<open>parse\<close>\<close>

definition headerTableParser :: "buffer \<Rightarrow> nat \<Rightarrow> error + (TableDirectoryEntry \<times> nat)" where
  "headerTableParser buf off =
     bindE (uint32 Little buf off) (\<lambda>(ty, o1).
     bindE (uint32 Little buf o1) (\<lambda>(fmt, o2).
     bindE (uint32 Little buf o2) (\<lambda>(sz, o3).
     bindE (uint32 Little buf o3) (\<lambda>(ofs, o4).
     Inr (\<lparr>TableDirectoryEntry.type = ty, TableDirectoryEntry.format = fmt,
           TableDirectoryEntry.byteSize = sz, TableDirectoryEntry.offset = ofs\<rparr>, o4)))))"

text \<open>
  The header is a string of 4 bytes (\<^verbatim>\<open>buffer.toString\<close>, which clamps to the buffer and
  never fails). It is kept as its bytes: the signature \<^verbatim>\<open>'\u0001fcp'\<close> is ASCII, and the
  UTF-8 decoding of four bytes is that string only for the bytes \<open>01 66 63 70\<close>.
\<close>

definition magic :: "byte list" where
  "magic = [0x01, 0x66, 0x63, 0x70]"

definition mainParser :: "buffer \<Rightarrow> error + pcf" where
  "mainParser buf =
     bindE (Inr (bufferSlice buf 0 4, 4)) (\<lambda>(hdr, o1).
     bindE (uint32 Little buf o1) (\<lambda>(n, o2).
     bindE (readArray headerTableParser n buf o2) (\<lambda>(toc, o3).
     Inr \<lparr>header = hdr, tableCount = n, tocEntry = toc, glyphNameTable = None,
          encodingTable = None, metricsTable = None, bitmapTable = None\<rparr>)))"

text \<open>
  The body of the loop over the directory: the \<^verbatim>\<open>switch\<close> on the type string. (The loop
  also stores the type string and a format string in the entry; nothing reads them
  afterwards, and they are not kept here.)
\<close>

definition parseTable :: "buffer \<Rightarrow> TableDirectoryEntry \<Rightarrow> pcf \<Rightarrow> error + pcf" where
  "parseTable buf table p =
     (let typeString = tableTypeToString (TableDirectoryEntry.type table) in
      if typeString = ''PCF_GLYPH_NAMES'' then
        bindE (parseGlyphNameTable buf (TableDirectoryEntry.offset table)
                 (TableDirectoryEntry.format table))
          (\<lambda>t. Inr (p\<lparr>glyphNameTable := Some t\<rparr>))
      else if typeString = ''PCF_BDF_ENCODINGS'' then
        bindE (parseEncodingTable buf (TableDirectoryEntry.offset table)
                 (TableDirectoryEntry.format table))
          (\<lambda>t. Inr (p\<lparr>encodingTable := Some t\<rparr>))
      else if typeString = ''PCF_METRICS'' then
        bindE (parseMetricsTable buf (TableDirectoryEntry.offset table)
                 (TableDirectoryEntry.format table))
          (\<lambda>t. Inr (p\<lparr>metricsTable := Some t\<rparr>))
      else if typeString = ''PCF_BITMAPS'' then
        bindE (parseBitmapTable buf (TableDirectoryEntry.offset table)
                 (TableDirectoryEntry.format table))
          (\<lambda>t. Inr (p\<lparr>bitmapTable := Some t\<rparr>))
      else Inr p)"

text \<open>
  The loop over the directory. It stores each decoded table in \<^verbatim>\<open>this.pcf\<close> at once, so its
  value is the object it has filled and the exception that ended it, if any: when a decoder
  throws, the tables stored by the entries before it stay in the object.
\<close>

fun parseTables :: "buffer \<Rightarrow> TableDirectoryEntry list \<Rightarrow> pcf \<Rightarrow> pcf \<times> error option" where
  "parseTables buf [] p = (p, None)"
| "parseTables buf (table # rest) p =
     (case parseTable buf table p of
        Inl e \<Rightarrow> (p, Some e)
      | Inr p' \<Rightarrow> parseTables buf rest p')"

text \<open>
  \<^verbatim>\<open>parse\<close>, called on a new parser object for a file with the contents \<open>buf\<close>: the parser
  object after the call, and what the call throws (\<open>Inl\<close>) or returns (\<open>Inr\<close>, the object
  \<^verbatim>\<open>this.pcf\<close>). The method assigns \<^verbatim>\<open>this.rawBuffer\<close> first, \<^verbatim>\<open>this.pcf\<close> when the directory is
  read, before the signature check, and each table when it is decoded; so on every path the
  object holds what was stored before the exception. The final log line reads
  \<^verbatim>\<open>this.pcf.metricsTable.metricsCount\<close> and throws \<^verbatim>\<open>TypeError\<close> when no metrics table was
  decoded.
\<close>

definition parse :: "buffer \<Rightarrow> PcfParser \<times> (error + pcf)" where
  "parse buf =
     (case mainParser buf of
        Inl e \<Rightarrow> (\<lparr>rawBuffer = buf, pcf = None\<rparr>, Inl e)
      | Inr m \<Rightarrow>
          if header m \<noteq> magic
          then (\<lparr>rawBuffer = buf, pcf = Some m\<rparr>, Inl (Error ''Not a valid PCF file.''))
          else
            (case parseTables buf (tocEntry m) m of
               (p, Some e) \<Rightarrow> (\<lparr>rawBuffer = buf, pcf = Some p\<rparr>, Inl e)
             | (p, None) \<Rightarrow>
                 (case metricsTable p of
                    None \<Rightarrow> (\<lparr>rawBuffer = buf, pcf = Some p\<rparr>, Inl TypeError)
                  | Some mt \<Rightarrow> (\<lparr>rawBuffer = buf, pcf = Some p\<rparr>, Inr p))))"

subsection \<open>The glyph accessors\<close>

text \<open>
  Reading a JavaScript array out of range, or at \<^verbatim>\<open>undefined\<close>, gives \<^verbatim>\<open>undefined\<close>: the
  value \<open>None\<close>. Reading a property of \<^verbatim>\<open>undefined\<close> throws \<^verbatim>\<open>TypeError\<close>.
\<close>

definition arrayGet :: "'a list \<Rightarrow> nat option \<Rightarrow> 'a option" where
  "arrayGet xs i = (case i of None \<Rightarrow> None
                    | Some k \<Rightarrow> if k < length xs then Some (xs ! k) else None)"

text \<open>
  The three accessors start alike: the check that the file was parsed, and the lookup
  \<^verbatim>\<open>this.pcf.encodingTable.glyphIndeces[glyphCode]\<close>.
\<close>

definition getGlyphIndex :: "PcfParser \<Rightarrow> nat \<Rightarrow> error + nat option" where
  "getGlyphIndex parser glyphCode =
     (case pcf parser of
        None \<Rightarrow> Inl (Error ''The PCF has not been parsed yet.'')
      | Some p \<Rightarrow>
          (case encodingTable p of
             None \<Rightarrow> Inl TypeError
           | Some enc \<Rightarrow> Inr (arrayGet (glyphIndeces enc) (Some glyphCode))))"

definition getGlyphName :: "PcfParser \<Rightarrow> nat \<Rightarrow> error + byte list option" where
  "getGlyphName parser glyphCode =
     bindE (getGlyphIndex parser glyphCode) (\<lambda>glyphIndex.
     case glyphNameTable (the (pcf parser)) of
       None \<Rightarrow> Inl TypeError
     | Some t \<Rightarrow> Inr (arrayGet (strings t) glyphIndex))"

definition getGlyphMetrics :: "PcfParser \<Rightarrow> nat \<Rightarrow> error + MetricsEntry option" where
  "getGlyphMetrics parser glyphCode =
     bindE (getGlyphIndex parser glyphCode) (\<lambda>glyphIndex.
     case metricsTable (the (pcf parser)) of
       None \<Rightarrow> Inl TypeError
     | Some t \<Rightarrow> Inr (arrayGet (metrics t) glyphIndex))"

text \<open>
  The two ends of a glyph's bitmap, as \<^verbatim>\<open>getGlyphBitmap\<close> computes them before the slice.
  \<^verbatim>\<open>undefined < n\<close> is false, and \<^verbatim>\<open>undefined + n\<close> is \<^verbatim>\<open>NaN\<close>, again \<open>None\<close>.
\<close>

definition bitmapExtent :: "BitmapTable \<Rightarrow> nat option \<Rightarrow> nat option \<times> nat option" where
  "bitmapExtent t glyphIndex =
     (let bitmapOffset = arrayGet (BitmapTable.offsets t) glyphIndex;
          bitmapEnd =
            (if (case glyphIndex of None \<Rightarrow> False
                 | Some i \<Rightarrow> int i < int (BitmapTable.glyphCount t) - 1)
             then arrayGet (BitmapTable.offsets t) (map_option (\<lambda>i. i + 1) glyphIndex)
             else Some (bitmapSize t))
      in (map_option (\<lambda>v. v + bitmapsBaseOffset t) bitmapOffset,
          map_option (\<lambda>v. v + bitmapsBaseOffset t) bitmapEnd))"

text \<open>\<^verbatim>\<open>slice\<close> takes \<^verbatim>\<open>NaN\<close> as 0.\<close>

definition sliceNumbers :: "buffer \<Rightarrow> nat option \<Rightarrow> nat option \<Rightarrow> buffer" where
  "sliceNumbers buf start end =
     bufferSlice buf (case start of None \<Rightarrow> 0 | Some s \<Rightarrow> s)
       (case end of None \<Rightarrow> 0 | Some e \<Rightarrow> e)"

definition getGlyphBitmap :: "PcfParser \<Rightarrow> nat \<Rightarrow> error + buffer" where
  "getGlyphBitmap parser glyphCode =
     bindE (getGlyphIndex parser glyphCode) (\<lambda>glyphIndex.
     case bitmapTable (the (pcf parser)) of
       None \<Rightarrow> Inl TypeError
     | Some t \<Rightarrow>
         (case bitmapExtent t glyphIndex of
            (bitmapOffset, bitmapEnd) \<Rightarrow>
              Inr (sliceNumbers (rawBuffer parser) bitmapOffset bitmapEnd)))"

section \<open>pcf2opentype.js\<close>

text \<open>
  The repository holds two versions of the converter; the model follows the later one,
  which has the three dot shapes and rounds the coordinates.

  JavaScript numbers are modelled as real numbers: the quotients \<^verbatim>\<open>1000 / PIXEL_HEIGHT\<close>
  and \<^verbatim>\<open>PIXEL_SIZE / 9\<close> are exact here, where the source computes them in double
  precision. \<^verbatim>\<open>Math.round\<close> rounds to the nearest integer, a half upwards. The pixel
  height is an integer; at the height 0 the quotient is infinite in JavaScript and 0
  here, so the properties of the geometry ask for a positive height.
\<close>

record argv =
  glyph_size_in_pixel :: int
  dot_shape :: string
  dry_run :: bool
  gb2312_only :: bool

definition WHITE_PIXEL :: char where
  "WHITE_PIXEL = CHR ''_''"

definition BLACK_PIXEL :: char where
  "BLACK_PIXEL = CHR ''#''"

definition PIXEL_HEIGHT :: "argv \<Rightarrow> real" where
  "PIXEL_HEIGHT a = of_int (glyph_size_in_pixel a)"

definition DEFAULT_ASCENT_IN_PIXELS :: "argv \<Rightarrow> real" where
  "DEFAULT_ASCENT_IN_PIXELS a = PIXEL_HEIGHT a - 2"

definition UNITS_PER_EM :: real where
  "UNITS_PER_EM = 1000"

definition PIXEL_SIZE :: "argv \<Rightarrow> real" where
  "PIXEL_SIZE a = UNITS_PER_EM / PIXEL_HEIGHT a"

definition PIXEL_PADDING :: "argv \<Rightarrow> real" where
  "PIXEL_PADDING a = PIXEL_SIZE a / 9"

definition BYTES_PER_LINE :: nat where
  "BYTES_PER_LINE = 4"

definition DESCENDER_HEIGHT :: "argv \<Rightarrow> real" where
  "DESCENDER_HEIGHT a = PIXEL_SIZE a * 3"

subsection \<open>The code-point filter\<close>

function asciiLoop :: "nat \<Rightarrow> nat set \<Rightarrow> nat set" where
  "asciiLoop code ret = (if code \<le> 0xFF then asciiLoop (code + 1) (insert code ret) else ret)"
  by pat_completeness auto
termination
  by (relation "measure (\<lambda>(code, ret). 0x100 - code)") auto

declare asciiLoop.simps [simp del]

definition ASCII_SET :: "nat set" where
  "ASCII_SET = asciiLoop 0x20 {}"

text \<open>
  \<^verbatim>\<open>GB2312_SET\<close> is filled once, when the module is loaded, from the platform's GBK text
  decoder, and never changed afterwards; it is a parameter \<open>gb\<close> here.
\<close>

definition isAcceptedGlyph :: "argv \<Rightarrow> nat set \<Rightarrow> nat \<Rightarrow> bool" where
  "isAcceptedGlyph a gb glyphCode =
     (if dry_run a then glyphCode \<in> ASCII_SET
      else if gb2312_only a then glyphCode \<in> ASCII_SET \<or> glyphCode \<in> gb
      else True)"

subsection \<open>Unpacking a bitmap\<close>

text \<open>
  \<^verbatim>\<open>n.toString(2)\<close> for a non-negative integer; \<^verbatim>\<open>parseInt(undefined, 10)\<close> is \<^verbatim>\<open>NaN\<close>,
  printed as \<^verbatim>\<open>'NaN'\<close>.
\<close>

fun toStringBase2 :: "nat \<Rightarrow> string" where
  "toStringBase2 n =
     (if n < 2 then [if n = 0 then CHR ''0'' else CHR ''1'']
      else toStringBase2 (n div 2) @ [if n mod 2 = 0 then CHR ''0'' else CHR ''1''])"

declare toStringBase2.simps [simp del]

definition replaceChar :: "char \<Rightarrow> char \<Rightarrow> string \<Rightarrow> string" where
  "replaceChar c d s = map (\<lambda>x. if x = c then d else x) s"

definition byteToBinaryString :: "byte option \<Rightarrow> string" where
  "byteToBinaryString byte =
     (let binaryString = (case byte of None \<Rightarrow> ''NaN'' | Some b \<Rightarrow> toStringBase2 (unat b));
          padded = ''00000000'' @ binaryString;
          paddedString = drop (length padded - 8) padded
      in replaceChar (CHR ''1'') BLACK_PIXEL (replaceChar (CHR ''0'') WHITE_PIXEL paddedString))"

text \<open>\<^verbatim>\<open>line.slice(0, width)\<close>: a negative width counts from the end of the line.\<close>

definition sliceFromStart :: "string \<Rightarrow> int \<Rightarrow> string" where
  "sliceFromStart line width =
     (if 0 \<le> width then take (nat width) line else take (nat (int (length line) + width)) line)"

definition binaryLine :: "buffer \<Rightarrow> nat \<Rightarrow> string" where
  "binaryLine bitmap i =
     concat (map (\<lambda>j. byteToBinaryString (arrayGet bitmap (Some (i + j)))) [0..<BYTES_PER_LINE])"

function bitmapLinesLoop :: "buffer \<Rightarrow> int \<Rightarrow> nat \<Rightarrow> string list \<Rightarrow> string list" where
  "bitmapLinesLoop bitmap width i lines =
     (if i < length bitmap
      then bitmapLinesLoop bitmap width (i + BYTES_PER_LINE)
             (lines @ [sliceFromStart (binaryLine bitmap i) width])
      else lines)"
  by pat_completeness auto
termination
  by (relation "measure (\<lambda>(bitmap, width, i, lines). length bitmap - i)")
     (auto simp: BYTES_PER_LINE_def)

declare bitmapLinesLoop.simps [simp del]

definition bitmapToBinaryLines :: "buffer \<Rightarrow> int \<Rightarrow> string list" where
  "bitmapToBinaryLines bitmap width = bitmapLinesLoop bitmap width 0 []"

subsection \<open>Drawing the dots\<close>

datatype PathCommand =
  MoveTo real real
| LineTo real real
| CurveTo real real real real real real
| ClosePath

type_synonym Path = "PathCommand list"

definition moveTo :: "Path \<Rightarrow> real \<Rightarrow> real \<Rightarrow> Path" where
  "moveTo path x y = path @ [MoveTo x y]"

definition lineTo :: "Path \<Rightarrow> real \<Rightarrow> real \<Rightarrow> Path" where
  "lineTo path x y = path @ [LineTo x y]"

definition curveTo :: "Path \<Rightarrow> real \<Rightarrow> real \<Rightarrow> real \<Rightarrow> real \<Rightarrow> real \<Rightarrow> real \<Rightarrow> Path" where
  "curveTo path x1 y1 x2 y2 x y = path @ [CurveTo x1 y1 x2 y2 x y]"

definition closePath :: "Path \<Rightarrow> Path" where
  "closePath path = path @ [ClosePath]"

definition Math_round :: "real \<Rightarrow> real" where
  "Math_round x = of_int \<lfloor>x + 1 / 2\<rfloor>"

definition ScreenXyToFontXy :: "real \<Rightarrow> real \<Rightarrow> real \<Rightarrow> real \<times> real" where
  "ScreenXyToFontXy x y glyphTop = (Math_round x, Math_round (glyphTop - y))"

definition drawSquareDot :: "Path \<Rightarrow> real \<Rightarrow> real \<Rightarrow> real \<Rightarrow> real \<Rightarrow> Path" where
  "drawSquareDot path left topY right bottom =
     (let p1 = moveTo path left topY;
          p2 = lineTo p1 left bottom;
          p3 = lineTo p2 right bottom;
          p4 = lineTo p3 right topY
      in lineTo p4 left topY)"

definition drawDiamondDot :: "Path \<Rightarrow> real \<Rightarrow> real \<Rightarrow> real \<Rightarrow> real \<Rightarrow> Path" where
  "drawDiamondDot path left topY right bottom =
     (let RADIUS = (right - left) / 2;
          p1 = moveTo path (left + RADIUS) topY;
          p2 = lineTo p1 left (topY - RADIUS);
          p3 = lineTo p2 (left + RADIUS) bottom;
          p4 = lineTo p3 right (topY - RADIUS)
      in lineTo p4 (left + RADIUS) topY)"

definition drawCircleDot :: "Path \<Rightarrow> real \<Rightarrow> real \<Rightarrow> real \<Rightarrow> real \<Rightarrow> Path" where
  "drawCircleDot path left topY right bottom =
     (let C = 551915 / 1000000;
          RADIUS = (right - left) / 2;
          p1 = moveTo path (left + RADIUS) topY;
          p2 = curveTo p1 (left + RADIUS - RADIUS * C) topY
                          left (topY - RADIUS + RADIUS * C)
                          left (topY - RADIUS);
          p3 = curveTo p2 left (topY - RADIUS - RADIUS * C)
                          (left + RADIUS - RADIUS * C) bottom
                          (left + RADIUS) bottom;
          p4 = curveTo p3 (left + RADIUS + RADIUS * C) bottom
                          right (topY - RADIUS - RADIUS * C)
                          right (topY - RADIUS)
      in curveTo p4 right (topY - RADIUS + RADIUS * C)
                    (left + RADIUS + RADIUS * C) topY
                    (left + RADIUS) topY)"

subsection \<open>Vectorizing a glyph\<close>

text \<open>The four rounded corners of the dot for the pixel in column \<open>x\<close> of row \<open>y\<close>.\<close>

definition dotCorners :: "argv \<Rightarrow> real \<Rightarrow> real \<Rightarrow> real \<Rightarrow> nat \<Rightarrow> nat \<Rightarrow> (real \<times> real) \<times> (real \<times> real)" where
  "dotCorners a xOffset yOffset glyphTop x y =
     (let x1 = xOffset + real x * PIXEL_SIZE a + PIXEL_PADDING a;
          y1 = yOffset + real y * PIXEL_SIZE a + PIXEL_PADDING a;
          x2 = xOffset + (real x + 1) * PIXEL_SIZE a - PIXEL_PADDING a;
          y2 = yOffset + (real y + 1) * PIXEL_SIZE a - PIXEL_PADDING a
      in (ScreenXyToFontXy x1 y1 glyphTop, ScreenXyToFontXy x2 y2 glyphTop))"

definition drawDot :: "argv \<Rightarrow> Path \<Rightarrow> real \<Rightarrow> real \<Rightarrow> real \<Rightarrow> real \<Rightarrow> Path" where
  "drawDot a path left topY right bottom =
     (if dot_shape a = ''square'' then drawSquareDot path left topY right bottom
      else if dot_shape a = ''circle'' then drawCircleDot path left topY right bottom
      else if dot_shape a = ''diamond'' then drawDiamondDot path left topY right bottom
      else path)"

text \<open>The inner loop, over the columns \<open>x\<close> of one line, and the outer loop over the lines.\<close>

fun vectorizeLine :: "argv \<Rightarrow> real \<Rightarrow> real \<Rightarrow> real \<Rightarrow> nat \<Rightarrow> nat \<Rightarrow> string \<Rightarrow> Path \<Rightarrow> Path" where
  "vectorizeLine a xOffset yOffset glyphTop y x [] path = path"
| "vectorizeLine a xOffset yOffset glyphTop y x (c # rest) path =
     vectorizeLine a xOffset yOffset glyphTop y (x + 1) rest
       (if c = BLACK_PIXEL
        then (case dotCorners a xOffset yOffset glyphTop x y of
                ((left, topY), (right, bottom)) \<Rightarrow> drawDot a path left topY right bottom)
        else path)"

fun vectorizeLines :: "argv \<Rightarrow> real \<Rightarrow> real \<Rightarrow> real \<Rightarrow> nat \<Rightarrow> string list \<Rightarrow> Path \<Rightarrow> Path" where
  "vectorizeLines a xOffset yOffset glyphTop y [] path = path"
| "vectorizeLines a xOffset yOffset glyphTop y (line # rest) path =
     vectorizeLines a xOffset yOffset glyphTop (y + 1) rest
       (vectorizeLine a xOffset yOffset glyphTop y 0 line path)"

record GlyphInfo =
  code :: nat
  index :: nat
  name :: "byte list option"
  metrics :: "MetricsEntry option"
  bitmap :: buffer

record FontGlyph =
  name :: "byte list option"
  unicode :: nat
  advanceWidth :: real
  path :: Path

definition vectorizeGlyph :: "argv \<Rightarrow> GlyphInfo \<Rightarrow> error + FontGlyph" where
  "vectorizeGlyph a glyphInfo =
     (case GlyphInfo.metrics glyphInfo of
        None \<Rightarrow> Inl TypeError
      | Some m \<Rightarrow>
          (let width = characterWidth m;
               glyphWidth = of_int width * PIXEL_SIZE a;
               glyphTop = PIXEL_HEIGHT a * PIXEL_SIZE a - DESCENDER_HEIGHT a;
               xOffset = of_int (leftSidedBearing m) * PIXEL_SIZE a;
               yOffset = (DEFAULT_ASCENT_IN_PIXELS a - of_int (characterAscent m)) * PIXEL_SIZE a;
               binaryLines = bitmapToBinaryLines (bitmap glyphInfo) width;
               dots = vectorizeLines a xOffset yOffset glyphTop 0 binaryLines []
           in Inr \<lparr>FontGlyph.name = GlyphInfo.name glyphInfo, unicode = code glyphInfo,
                   advanceWidth = glyphWidth, path = closePath dots\<rparr>))"

subsection \<open>The conversion\<close>

text \<open>The object pushed for an accepted code point: the three accessors, in order.\<close>

definition glyphRecord :: "PcfParser \<Rightarrow> nat \<Rightarrow> nat \<Rightarrow> error + GlyphInfo" where
  "glyphRecord parser c i =
     bindE (getGlyphName parser c) (\<lambda>nm.
     bindE (getGlyphMetrics parser c) (\<lambda>m.
     bindE (getGlyphBitmap parser c) (\<lambda>bm.
     Inr \<lparr>code = c, index = i, GlyphInfo.name = nm, GlyphInfo.metrics = m, bitmap = bm\<rparr>)))"

text \<open>
  The loop over the code points of the encoding table. An index read from the table is an
  unsigned number, so the test \<^verbatim>\<open>index >= 0\<close> holds for it.
\<close>

function convertLoop :: "argv \<Rightarrow> nat set \<Rightarrow> PcfParser \<Rightarrow> nat \<Rightarrow> GlyphInfo list \<Rightarrow> error + GlyphInfo list" where
  "convertLoop a gb parser c glyphs =
     (case pcf parser of
        None \<Rightarrow> Inl TypeError
      | Some p \<Rightarrow>
          (case encodingTable p of
             None \<Rightarrow> Inl TypeError
           | Some enc \<Rightarrow>
               if c < length (glyphIndeces enc) then
                 (case metricsTable p of
                    None \<Rightarrow> Inl TypeError
                  | Some mt \<Rightarrow>
                      if 0 \<le> glyphIndeces enc ! c \<and> glyphIndeces enc ! c < metricsCount mt \<and>
                         isAcceptedGlyph a gb c
                      then (case glyphRecord parser c (glyphIndeces enc ! c) of
                              Inl e \<Rightarrow> Inl e
                            | Inr g \<Rightarrow> convertLoop a gb parser (c + 1) (glyphs @ [g]))
                      else convertLoop a gb parser (c + 1) glyphs)
               else Inr glyphs))"
  by pat_completeness auto
termination
  by (relation "measure (\<lambda>(a, gb, parser, c, glyphs).
        case pcf parser of None \<Rightarrow> 0
        | Some p \<Rightarrow> (case encodingTable p of None \<Rightarrow> 0
                     | Some enc \<Rightarrow> length (glyphIndeces enc) - c))") auto

declare convertLoop.simps [simp del]

fun vectorizeAll :: "argv \<Rightarrow> GlyphInfo list \<Rightarrow> error + FontGlyph list" where
  "vectorizeAll a [] = Inr []"
| "vectorizeAll a (g # gs) =
     bindE (vectorizeGlyph a g) (\<lambda>fg.
     bindE (vectorizeAll a gs) (\<lambda>fgs.
     Inr (fg # fgs)))"

definition notdefName :: "byte list" where
  "notdefName = [0x2E, 0x6E, 0x6F, 0x74, 0x64, 0x65, 0x66]"

definition notdefGlyph :: "argv \<Rightarrow> FontGlyph" where
  "notdefGlyph a = \<lparr>FontGlyph.name = Some notdefName, unicode = 0,
                    advanceWidth = 8 * PIXEL_SIZE a, path = []\<rparr>"

text \<open>
  \<^verbatim>\<open>convert\<close>, up to the list of glyphs handed to the font builder; \<open>convertGlyphs\<close> is
  its first half, the parse and the loop that collects the glyphs. The call
  \<^verbatim>\<open>parser.parse()\<close> is not in a \<^verbatim>\<open>try\<close>: an exception of it ends the conversion.
\<close>

definition convertGlyphs :: "argv \<Rightarrow> nat set \<Rightarrow> buffer \<Rightarrow> error + GlyphInfo list" where
  "convertGlyphs a gb buf =
     (case parse buf of
        (parser, Inl e) \<Rightarrow> Inl e
      | (parser, Inr p) \<Rightarrow> convertLoop a gb parser 0 [])"

definition convert :: "argv \<Rightarrow> nat set \<Rightarrow> buffer \<Rightarrow> error + FontGlyph list" where
  "convert a gb buf =
     bindE (convertGlyphs a gb buf) (\<lambda>glyphs.
     bindE (vectorizeAll a glyphs) (\<lambda>fontGlyphs.
     Inr (notdefGlyph a # fontGlyphs)))"

section \<open>Reference values and examples for the properties\<close>

text \<open>
  The definitions of this section are not part of the program: they say what the
  properties below compare the program with, and give the concrete inputs the properties
  are evaluated on.
\<close>

text \<open>
  The value of a field of a table as the format word prescribes it: big-endian when bit 2
  of the format is set, little-endian when it is clear.
\<close>

definition fieldValue :: "nat \<Rightarrow> byte list \<Rightarrow> nat" where
  "fieldValue fmt bs = (if bit fmt 2 then beValue bs else leValue bs)"

text \<open>
  The metrics entry stored at a position of the buffer. Compressed: five unsigned bytes,
  each standing for its value minus 128, and no attributes. Default: six 16-bit fields in
  the byte order of the format.
\<close>

definition compressedEntryAt :: "buffer \<Rightarrow> nat \<Rightarrow> MetricsEntry" where
  "compressedEntryAt buf pos =
     \<lparr>leftSidedBearing = int (unat (buf ! pos)) - 128,
      rightSideBearing = int (unat (buf ! (pos + 1))) - 128,
      characterWidth = int (unat (buf ! (pos + 2))) - 128,
      characterAscent = int (unat (buf ! (pos + 3))) - 128,
      characterDescent = int (unat (buf ! (pos + 4))) - 128,
      characterAttributes = 0\<rparr>"

definition defaultEntryAt :: "nat \<Rightarrow> buffer \<Rightarrow> nat \<Rightarrow> MetricsEntry" where
  "defaultEntryAt fmt buf pos =
     \<lparr>leftSidedBearing = int (fieldValue fmt (bufferSlice buf pos (pos + 2))),
      rightSideBearing = int (fieldValue fmt (bufferSlice buf (pos + 2) (pos + 4))),
      characterWidth = int (fieldValue fmt (bufferSlice buf (pos + 4) (pos + 6))),
      characterAscent = int (fieldValue fmt (bufferSlice buf (pos + 6) (pos + 8))),
      characterDescent = int (fieldValue fmt (bufferSlice buf (pos + 8) (pos + 10))),
      characterAttributes = int (fieldValue fmt (bufferSlice buf (pos + 10) (pos + 12)))\<rparr>"

text \<open>
  A compressed metrics table of one entry, with the bytes \<open>0x80\<close>, \<open>0x00\<close>, \<open>0xFF\<close>,
  \<open>0x7F\<close> and \<open>0x81\<close>.
\<close>

definition metricsExample :: buffer where
  "metricsExample = [0x00, 0x01, 0x00, 0x00, 0x01, 0x00, 0x80, 0x00, 0xFF, 0x7F, 0x81]"

text \<open>
  One buffer that decodes as each of the four tables at offset 0 under the big-endian
  format word 4.
\<close>

definition tableExample :: buffer where
  "tableExample = [0x04, 0x00, 0x00, 0x00,  0x00, 0x00, 0x00, 0x01,  0x00, 0x00, 0x00, 0x00,
                   0x00, 0x00, 0x00, 0x03,  0x41, 0x42, 0x00, 0x07,  0x00, 0x00, 0x00, 0x05,
                   0x00, 0x00, 0x00, 0x06]"


text \<open>The directory entry stored at a position of the buffer: four little-endian words.\<close>

definition entryAt :: "buffer \<Rightarrow> nat \<Rightarrow> TableDirectoryEntry" where
  "entryAt buf pos =
     \<lparr>TableDirectoryEntry.type = leValue (bufferSlice buf pos (pos + 4)),
      TableDirectoryEntry.format = leValue (bufferSlice buf (pos + 4) (pos + 8)),
      TableDirectoryEntry.byteSize = leValue (bufferSlice buf (pos + 8) (pos + 12)),
      TableDirectoryEntry.offset = leValue (bufferSlice buf (pos + 12) (pos + 16))\<rparr>"





text \<open>The command line's default options.\<close>

definition defaultArgv :: argv where
  "defaultArgv = \<lparr>glyph_size_in_pixel = 13, dot_shape = ''square'', dry_run = False,
                   gb2312_only = False\<rparr>"

text \<open>An 8-byte file whose first byte is 0 and not 1.\<close>

definition badMagicExample :: buffer where
  "badMagicExample = [0x00, 0x66, 0x63, 0x70, 0x00, 0x00, 0x00, 0x00]"

text \<open>
  A bitmap table of 3 glyphs with the offsets 0, 8, 20 and the four sizes 32, 40, 48, 56,
  followed by 32 bytes of bitmaps. In \<open>bitmapMismatchExample\<close> the table's own format word
  is 1; in \<open>bitmapExample\<close> it is 0.
\<close>

definition bitmapMismatchExample :: buffer where
  "bitmapMismatchExample =
     [0x01, 0x00, 0x00, 0x00,  0x03, 0x00, 0x00, 0x00,
      0x00, 0x00, 0x00, 0x00,  0x08, 0x00, 0x00, 0x00,  0x14, 0x00, 0x00, 0x00,
      0x20, 0x00, 0x00, 0x00,  0x28, 0x00, 0x00, 0x00,  0x30, 0x00, 0x00, 0x00,
      0x38, 0x00, 0x00, 0x00]"

definition bitmapExample :: buffer where
  "bitmapExample =
     [0x00, 0x00, 0x00, 0x00,  0x03, 0x00, 0x00, 0x00,
      0x00, 0x00, 0x00, 0x00,  0x08, 0x00, 0x00, 0x00,  0x14, 0x00, 0x00, 0x00,
      0x20, 0x00, 0x00, 0x00,  0x28, 0x00, 0x00, 0x00,  0x30, 0x00, 0x00, 0x00,
      0x38, 0x00, 0x00, 0x00] @ replicate 32 0x55"

definition bitmapExampleTable :: BitmapTable where
  "bitmapExampleTable =
     \<lparr>BitmapTable.format = 0, glyphCount = 3, offsets = [0, 8, 20],
      bitmapSizes = [32, 40, 48, 56], bitmapSize = 32, bitmapsBaseOffset = 36\<rparr>"

definition bitmapExampleParser :: PcfParser where
  "bitmapExampleParser =
     \<lparr>rawBuffer = bitmapExample,
      pcf = Some \<lparr>header = magic, tableCount = 0, tocEntry = [], glyphNameTable = None,
                  encodingTable = Some \<lparr>EncodingTable.format = 0, minCharOrByte2 = 0,
                    maxCharOrByte2 = 2, minByte1 = 0, maxByte1 = 0, defaultChar = 0,
                    glyphIndeces = [0, 1, 2]\<rparr>,
                  metricsTable = None, bitmapTable = Some bitmapExampleTable\<rparr>\<rparr>"

text \<open>A metrics entry for the examples.\<close>

definition sentinelEntry :: MetricsEntry where
  "sentinelEntry = \<lparr>leftSidedBearing = 0, rightSideBearing = 8, characterWidth = 8,
                     characterAscent = 8, characterDescent = 0, characterAttributes = 0\<rparr>"

text \<open>Tables with the two code points 0 and 1: the first has the index \<open>0xFFFF\<close>.\<close>

definition skipParser :: PcfParser where
  "skipParser =
     \<lparr>rawBuffer = [0x80, 0x00, 0x00, 0x00],
      pcf = Some \<lparr>header = magic, tableCount = 0, tocEntry = [],
                  glyphNameTable = Some \<lparr>GlyphNameTable.format = 0, glyphCount = 1, offsets = [0],
                    stringSize = 2, strings = [[0x41]]\<rparr>,
                  encodingTable = Some \<lparr>EncodingTable.format = 0, minCharOrByte2 = 0,
                    maxCharOrByte2 = 1, minByte1 = 0, maxByte1 = 0, defaultChar = 0,
                    glyphIndeces = [0xFFFF, 0]\<rparr>,
                  metricsTable = Some \<lparr>MetricsTable.format = 0, metricsCount = 1,
                    metrics = [sentinelEntry]\<rparr>,
                  bitmapTable = Some \<lparr>BitmapTable.format = 0, glyphCount = 1, offsets = [0],
                    bitmapSizes = [4, 4, 4, 4], bitmapSize = 4, bitmapsBaseOffset = 0\<rparr>\<rparr>\<rparr>"

text \<open>
  The selection policy the two flags stand for: \<^verbatim>\<open>--dry_run\<close> is the ASCII-only policy,
  \<^verbatim>\<open>--gb2312_only\<close> without it the ASCII plus GB2312 policy, neither the full policy.
\<close>

datatype Policy = Full | AsciiOnly | AsciiPlusGb2312

definition policy :: "argv \<Rightarrow> Policy" where
  "policy a = (if dry_run a then AsciiOnly else if gb2312_only a then AsciiPlusGb2312 else Full)"

text \<open>The three policies as command lines.\<close>

definition dryRunArgv :: argv where
  "dryRunArgv = \<lparr>glyph_size_in_pixel = 13, dot_shape = ''square'', dry_run = True,
                  gb2312_only = False\<rparr>"

definition gb2312Argv :: argv where
  "gb2312Argv = \<lparr>glyph_size_in_pixel = 16, dot_shape = ''circle'', dry_run = False,
                  gb2312_only = True\<rparr>"

text \<open>A bitmap of one full row and one more byte.\<close>

definition partialRowExample :: buffer where
  "partialRowExample = [0x80, 0x00, 0x00, 0x00, 0xFF]"

text \<open>
  The points of a path: the end point of a move or a line, the two control points and the
  end point of a curve. A curve stays in the convex hull of its start, control and end
  points, so a box that holds the points of a path holds the path.
\<close>

fun commandPoints :: "PathCommand \<Rightarrow> (real \<times> real) list" where
  "commandPoints (MoveTo x y) = [(x, y)]"
| "commandPoints (LineTo x y) = [(x, y)]"
| "commandPoints (CurveTo x1 y1 x2 y2 x y) = [(x1, y1), (x2, y2), (x, y)]"
| "commandPoints ClosePath = []"

definition pathPoints :: "Path \<Rightarrow> (real \<times> real) list" where
  "pathPoints p = concat (map commandPoints p)"

text \<open>
  The nominal cell of the pixel in column \<open>x\<close> of row \<open>y\<close>, in font coordinates: the unpadded
  square of side \<open>PIXEL_SIZE\<close> that the vectorizer starts from.
\<close>

definition cellLeft :: "argv \<Rightarrow> MetricsEntry \<Rightarrow> nat \<Rightarrow> real" where
  "cellLeft a m x = of_int (leftSidedBearing m) * PIXEL_SIZE a + real x * PIXEL_SIZE a"

definition cellRight :: "argv \<Rightarrow> MetricsEntry \<Rightarrow> nat \<Rightarrow> real" where
  "cellRight a m x = cellLeft a m x + PIXEL_SIZE a"

definition cellTop :: "argv \<Rightarrow> MetricsEntry \<Rightarrow> nat \<Rightarrow> real" where
  "cellTop a m y =
     (PIXEL_HEIGHT a * PIXEL_SIZE a - DESCENDER_HEIGHT a) -
     ((DEFAULT_ASCENT_IN_PIXELS a - of_int (characterAscent m)) * PIXEL_SIZE a +
      real y * PIXEL_SIZE a)"

definition cellBottom :: "argv \<Rightarrow> MetricsEntry \<Rightarrow> nat \<Rightarrow> real" where
  "cellBottom a m y = cellTop a m y - PIXEL_SIZE a"

definition insideBox :: "real \<Rightarrow> real \<Rightarrow> real \<Rightarrow> real \<Rightarrow> real \<times> real \<Rightarrow> bool" where
  "insideBox xl xr yb yt pt = (xl < fst pt \<and> fst pt < xr \<and> yb < snd pt \<and> snd pt < yt)"

definition strictlyInsideCell :: "argv \<Rightarrow> MetricsEntry \<Rightarrow> nat \<Rightarrow> nat \<Rightarrow> real \<times> real \<Rightarrow> bool" where
  "strictlyInsideCell a m x y pt =
     insideBox (cellLeft a m x) (cellRight a m x) (cellBottom a m y) (cellTop a m y) pt"

text \<open>
  The four sides of the dot of the pixel in column \<open>x\<close> of row \<open>y\<close>, as the claim describes
  them: the sides of the cell moved inwards by the padding, and rounded.
\<close>

definition dotLeft :: "argv \<Rightarrow> MetricsEntry \<Rightarrow> nat \<Rightarrow> real" where
  "dotLeft a m x = Math_round (cellLeft a m x + PIXEL_PADDING a)"

definition dotRight :: "argv \<Rightarrow> MetricsEntry \<Rightarrow> nat \<Rightarrow> real" where
  "dotRight a m x = Math_round (cellRight a m x - PIXEL_PADDING a)"

definition dotTop :: "argv \<Rightarrow> MetricsEntry \<Rightarrow> nat \<Rightarrow> real" where
  "dotTop a m y = Math_round (cellTop a m y - PIXEL_PADDING a)"

definition dotBottom :: "argv \<Rightarrow> MetricsEntry \<Rightarrow> nat \<Rightarrow> real" where
  "dotBottom a m y = Math_round (cellBottom a m y + PIXEL_PADDING a)"

text \<open>
  \<open>paddedBox xl xr yb yt d pts\<close>: the bounding box of the points is the box with the sides
  \<open>xl\<close>, \<open>xr\<close>, \<open>yb\<close>, \<open>yt\<close> to within \<open>d\<close>: no point is more than \<open>d\<close> outside a side, and on each
  side some point is at most \<open>d\<close> inside it. \<open>paddedInCell\<close> takes for the box the cell made
  smaller by the padding on its four sides.
\<close>

definition paddedBox :: "real \<Rightarrow> real \<Rightarrow> real \<Rightarrow> real \<Rightarrow> real \<Rightarrow> (real \<times> real) list \<Rightarrow> bool" where
  "paddedBox xl xr yb yt d pts =
     ((\<forall>pt \<in> set pts. xl - d \<le> fst pt \<and> fst pt \<le> xr + d \<and> yb - d \<le> snd pt \<and> snd pt \<le> yt + d) \<and>
      (\<exists>pt \<in> set pts. fst pt \<le> xl + d) \<and> (\<exists>pt \<in> set pts. xr - d \<le> fst pt) \<and>
      (\<exists>pt \<in> set pts. snd pt \<le> yb + d) \<and> (\<exists>pt \<in> set pts. yt - d \<le> snd pt))"

definition paddedInCell :: "argv \<Rightarrow> MetricsEntry \<Rightarrow> nat \<Rightarrow> nat \<Rightarrow> real \<Rightarrow> (real \<times> real) list \<Rightarrow> bool" where
  "paddedInCell a m x y d pts =
     paddedBox (cellLeft a m x + PIXEL_PADDING a) (cellRight a m x - PIXEL_PADDING a)
       (cellBottom a m y + PIXEL_PADDING a) (cellTop a m y - PIXEL_PADDING a) d pts"

text \<open>
  The sub-paths of a path start at its moves. \<open>subPathsClosed start current p\<close> holds when
  every sub-path is back at its start point where it ends (at the next move, at a close
  command, at the end of the path).
\<close>

fun isMoveTo :: "PathCommand \<Rightarrow> bool" where
  "isMoveTo (MoveTo x y) = True"
| "isMoveTo (LineTo x y) = False"
| "isMoveTo (CurveTo x1 y1 x2 y2 x y) = False"
| "isMoveTo ClosePath = False"

definition subPathCount :: "Path \<Rightarrow> nat" where
  "subPathCount p = length (filter isMoveTo p)"

fun subPathsClosed :: "(real \<times> real) option \<Rightarrow> (real \<times> real) option \<Rightarrow> Path \<Rightarrow> bool" where
  "subPathsClosed start current [] = (start = current)"
| "subPathsClosed start current (MoveTo x y # rest) =
     (start = current \<and> subPathsClosed (Some (x, y)) (Some (x, y)) rest)"
| "subPathsClosed start current (LineTo x y # rest) = subPathsClosed start (Some (x, y)) rest"
| "subPathsClosed start current (CurveTo x1 y1 x2 y2 x y # rest) =
     subPathsClosed start (Some (x, y)) rest"
| "subPathsClosed start current (ClosePath # rest) =
     (start = current \<and> subPathsClosed start start rest)"

text \<open>
  A glyph of one row whose only set bit is the first: at the default pixel height, at the
  height 223, and its metrics.
\<close>

definition singlePixelMetrics :: "int \<Rightarrow> MetricsEntry" where
  "singlePixelMetrics ascent =
     \<lparr>leftSidedBearing = 0, rightSideBearing = 1, characterWidth = 1,
      characterAscent = ascent, characterDescent = 0, characterAttributes = 0\<rparr>"

definition singlePixelGlyph :: "int \<Rightarrow> GlyphInfo" where
  "singlePixelGlyph ascent =
     \<lparr>code = 0x41, index = 1, GlyphInfo.name = None,
      GlyphInfo.metrics = Some (singlePixelMetrics ascent), bitmap = [0x80, 0x00, 0x00, 0x00]\<rparr>"

definition argv223 :: argv where
  "argv223 = \<lparr>glyph_size_in_pixel = 223, dot_shape = ''square'', dry_run = False,
               gb2312_only = False\<rparr>"

text \<open>
  A file with the four tables: no glyph names, an encoding table with the code points 0 and
  1, mapped to the indices 0 and \<open>0xFFFF\<close>, a bitmap table without glyphs, and a default
  metrics table of \<open>0x10000\<close> entries, all zero. \<open>sentinelToc\<close> is its directory and
  \<open>sentinelFileParser\<close> the result of parsing it.
\<close>

definition sentinelFileHead :: buffer where
  "sentinelFileHead =
     [0x01, 0x66, 0x63, 0x70,  0x04, 0x00, 0x00, 0x00,
      0x80, 0x00, 0x00, 0x00,  0x00, 0x00, 0x00, 0x00,  0x0C, 0x00, 0x00, 0x00,  0x48, 0x00, 0x00, 0x00,
      0x20, 0x00, 0x00, 0x00,  0x00, 0x00, 0x00, 0x00,  0x12, 0x00, 0x00, 0x00,  0x54, 0x00, 0x00, 0x00,
      0x08, 0x00, 0x00, 0x00,  0x00, 0x00, 0x00, 0x00,  0x18, 0x00, 0x00, 0x00,  0x68, 0x00, 0x00, 0x00,
      0x04, 0x00, 0x00, 0x00,  0x00, 0x00, 0x00, 0x00,  0x08, 0x00, 0x0C, 0x00,  0x80, 0x00, 0x00, 0x00,
      0x00, 0x00, 0x00, 0x00,  0x00, 0x00, 0x00, 0x00,  0x00, 0x00, 0x00, 0x00,
      0x00, 0x00, 0x00, 0x00,  0x00, 0x00, 0x01, 0x00,  0x00, 0x00, 0x00, 0x00,  0x00, 0x00,
      0x00, 0x00, 0xFF, 0xFF,  0x00, 0x00,
      0x00, 0x00, 0x00, 0x00,  0x00, 0x00, 0x00, 0x00,
      0x00, 0x00, 0x00, 0x00,  0x00, 0x00, 0x00, 0x00,  0x00, 0x00, 0x00, 0x00,  0x00, 0x00, 0x00, 0x00,
      0x00, 0x00, 0x00, 0x00,  0x00, 0x00, 0x01, 0x00]"

definition sentinelFile :: buffer where
  "sentinelFile = sentinelFileHead @ replicate 786432 0x00"

definition sentinelToc :: "TableDirectoryEntry list" where
  "sentinelToc =
     [\<lparr>TableDirectoryEntry.type = 0x80, TableDirectoryEntry.format = 0,
       TableDirectoryEntry.byteSize = 12, TableDirectoryEntry.offset = 72\<rparr>,
      \<lparr>TableDirectoryEntry.type = 0x20, TableDirectoryEntry.format = 0,
       TableDirectoryEntry.byteSize = 18, TableDirectoryEntry.offset = 84\<rparr>,
      \<lparr>TableDirectoryEntry.type = 0x08, TableDirectoryEntry.format = 0,
       TableDirectoryEntry.byteSize = 24, TableDirectoryEntry.offset = 104\<rparr>,
      \<lparr>TableDirectoryEntry.type = 0x04, TableDirectoryEntry.format = 0,
       TableDirectoryEntry.byteSize = 786440, TableDirectoryEntry.offset = 128\<rparr>]"

definition sentinelFileParser :: PcfParser where
  "sentinelFileParser =
     \<lparr>rawBuffer = sentinelFile,
      pcf = Some \<lparr>header = magic, tableCount = 4, tocEntry = sentinelToc,
        glyphNameTable = Some \<lparr>GlyphNameTable.format = 0, glyphCount = 0, offsets = [],
          stringSize = 0, strings = []\<rparr>,
        encodingTable = Some \<lparr>EncodingTable.format = 0, minCharOrByte2 = 0, maxCharOrByte2 = 1,
          minByte1 = 0, maxByte1 = 0, defaultChar = 0, glyphIndeces = [0, 0xFFFF]\<rparr>,
        metricsTable = Some \<lparr>MetricsTable.format = 0, metricsCount = 0x10000,
          metrics = map (\<lambda>i. defaultEntryAt 0 sentinelFile (128 + 8 + 12 * i)) [0..<0x10000]\<rparr>,
        bitmapTable = Some \<lparr>BitmapTable.format = 0, glyphCount = 0, offsets = [],
          bitmapSizes = [0, 0, 0, 0], bitmapSize = 0, bitmapsBaseOffset = 128\<rparr>\<rparr>\<rparr>"

section \<open>Lemmas\<close>

lemma bindE_Inl [simp]: "bindE (Inl e) f = Inl e"
  by (simp add: bindE_def)

lemma bindE_Inr [simp]: "bindE (Inr x) f = f x"
  by (simp add: bindE_def)

lemma bindE_eq_Inr: "bindE m f = Inr y \<longleftrightarrow> (\<exists>x. m = Inr x \<and> f x = Inr y)"
  by (cases m) auto

lemma bit2_AND4: "(fmt AND 4 \<noteq> 0) = bit (fmt::nat) 2"
  using and_exp_eq_0_iff_not_bit [of fmt 2] by simp

lemma readUInt_ok: "off + n \<le> length buf \<Longrightarrow>
  readUInt e n buf off = Inr (bytesValue e (bufferSlice buf off (off + n)), off + n)"
  by (simp add: readUInt_def)

lemma readUInt_fail: "length buf < off + n \<Longrightarrow> readUInt e n buf off = Inl RangeError"
  by (simp add: readUInt_def)

lemma readArray_fixed:
  assumes item: "\<And>off. item buf off =
      (if off + w \<le> length buf then Inr (F off, off + w) else Inl RangeError)"
  shows "readArray item n buf off =
      (if n = 0 \<or> off + n * w \<le> length buf
       then Inr (map (\<lambda>i. F (off + i * w)) [0..<n], off + n * w)
       else Inl RangeError)"
proof (induction n arbitrary: off)
  case 0
  show ?case by simp
next
  case (Suc n)
  have shift: "map (\<lambda>i. F (off + i * w)) [0..<Suc n] =
      F off # map (\<lambda>i. F (off + w + i * w)) [0..<n]"
    by (simp only: map_upt_Suc) (simp add: add.assoc add.commute)
  show ?case
  proof (cases "off + w \<le> length buf")
    case True
    then show ?thesis
      unfolding readArray.simps item Suc.IH shift
      by (auto simp: add.assoc add.commute add.left_commute)
  next
    case False
    then have "\<not> off + Suc n * w \<le> length buf" by simp
    with False show ?thesis
      unfolding readArray.simps item by simp
  qed
qed

lemma bufferSlice_nth:
  "off + n \<le> length buf \<Longrightarrow> i < n \<Longrightarrow> bufferSlice buf off (off + n) ! i = buf ! (off + i)"
  by (simp add: bufferSlice_def)

lemma bufferSlice_length:
  "off + n \<le> length buf \<Longrightarrow> length (bufferSlice buf off (off + n)) = n"
  by (simp add: bufferSlice_def)

lemma take_drop_step:
  "off < length buf \<Longrightarrow> take (Suc n) (drop off buf) = buf ! off # take n (drop (Suc off) buf)"
  by (simp add: Cons_nth_drop_Suc [symmetric])

lemma slice1: "off + 1 \<le> length buf \<Longrightarrow> bufferSlice buf off (off + 1) = [buf ! off]"
  by (simp add: bufferSlice_def take_drop_step)

lemma slice2: "off + 2 \<le> length buf \<Longrightarrow>
    bufferSlice buf off (off + 2) = [buf ! off, buf ! (off + 1)]"
  by (simp add: bufferSlice_def take_drop_step eval_nat_numeral)

lemma slice4: "off + 4 \<le> length buf \<Longrightarrow>
    bufferSlice buf off (off + 4) = [buf ! off, buf ! (off + 1), buf ! (off + 2), buf ! (off + 3)]"
  by (simp add: bufferSlice_def take_drop_step eval_nat_numeral)

lemma uint8_eq: "uint8 buf off =
  (if off + 1 \<le> length buf then Inr (unat (buf ! off), off + 1) else Inl RangeError)"
  using slice1 [of off buf] by (simp add: uint8_def readUInt_def bytesValue_def)

lemma compressedEntryParser_eq: "compressedEntryParser buf off =
  (if off + 5 \<le> length buf
   then Inr (\<lparr>leftSidedBearing = int (unat (buf ! off)),
              rightSideBearing = int (unat (buf ! (off + 1))),
              characterWidth = int (unat (buf ! (off + 2))),
              characterAscent = int (unat (buf ! (off + 3))),
              characterDescent = int (unat (buf ! (off + 4))),
              characterAttributes = 0\<rparr>, off + 5)
   else Inl RangeError)"
  by (simp add: compressedEntryParser_def uint8_eq eval_nat_numeral)

lemma uint16_eq: "uint16 e buf off =
  (if off + 2 \<le> length buf
   then Inr (bytesValue e [buf ! off, buf ! (off + 1)], off + 2) else Inl RangeError)"
  using slice2 [of off buf] by (simp add: uint16_def readUInt_def)

lemma uint32_eq: "uint32 e buf off =
  (if off + 4 \<le> length buf
   then Inr (bytesValue e [buf ! off, buf ! (off + 1), buf ! (off + 2), buf ! (off + 3)], off + 4)
   else Inl RangeError)"
  using slice4 [of off buf] by (simp add: uint32_def readUInt_def)

lemma endianess_fieldValue:
  "bytesValue (fst (getEndianessFromFormat fmt)) bs = fieldValue fmt bs"
  "bytesValue (snd (getEndianessFromFormat fmt)) bs = fieldValue fmt bs"
  using bit2_AND4 [of fmt]
  by (cases "bit fmt 2"; simp add: getEndianessFromFormat_def bytesValue_def fieldValue_def)+

lemma bytesValue_Little: "bytesValue Little bs = leValue bs"
  by (simp add: bytesValue_def)

lemma readArray_readUInt:
  "readArray (readUInt e w) n buf off =
     (if n = 0 \<or> off + n * w \<le> length buf
      then Inr (map (\<lambda>i. bytesValue e (bufferSlice buf (off + i * w) (off + i * w + w))) [0..<n],
                off + n * w)
      else Inl RangeError)"
  by (rule readArray_fixed) (simp add: readUInt_def)

lemma parseBitmapTable_eq:
  "parseBitmapTable buf off fmt =
     (let count = fieldValue fmt (bufferSlice buf (off + 4) (off + 8));
          tformat = leValue (bufferSlice buf off (off + 4));
          sizes = map (\<lambda>i. fieldValue fmt (bufferSlice buf (off + 8 + 4 * count + 4 * i)
                                             (off + 12 + 4 * count + 4 * i))) [0..<4]
      in if off + 8 + 4 * count + 16 \<le> length buf
         then Inr \<lparr>BitmapTable.format = tformat, glyphCount = count,
                   offsets = map (\<lambda>i. fieldValue fmt (bufferSlice buf (off + 8 + 4 * i)
                                                       (off + 12 + 4 * i))) [0..<count],
                   bitmapSizes = sizes, bitmapSize = sizes ! (tformat AND 3),
                   bitmapsBaseOffset = off + 4 * 2 + 4 * count + 4 * 4\<rparr>
         else Inl RangeError)"
proof -
  obtain e e' where E: "getEndianessFromFormat fmt = (e, e')" by (cases "getEndianessFromFormat fmt")
  have fv: "bytesValue e bs = fieldValue fmt bs" "bytesValue e' bs = fieldValue fmt bs" for bs
    using endianess_fieldValue [of fmt bs] E by simp_all
  show ?thesis
    unfolding parseBitmapTable_def E uint32_def
    by (simp add: readUInt_def readArray_readUInt fv bytesValue_Little Let_def mult.commute add.assoc add.commute add.left_commute)
qed

lemma parseEncodingTable_eq:
  "parseEncodingTable buf off fmt =
     (let minC2 = fieldValue fmt (bufferSlice buf (off + 4) (off + 6));
          maxC2 = fieldValue fmt (bufferSlice buf (off + 6) (off + 8));
          minB1 = fieldValue fmt (bufferSlice buf (off + 8) (off + 10));
          maxB1 = fieldValue fmt (bufferSlice buf (off + 10) (off + 12));
          n = nat (encodingLength minC2 maxC2 minB1 maxB1)
      in if off + 14 + 2 * n \<le> length buf
         then Inr \<lparr>EncodingTable.format = leValue (bufferSlice buf off (off + 4)),
                   minCharOrByte2 = minC2, maxCharOrByte2 = maxC2,
                   minByte1 = minB1, maxByte1 = maxB1,
                   defaultChar = fieldValue fmt (bufferSlice buf (off + 12) (off + 14)),
                   glyphIndeces = map (\<lambda>i. fieldValue fmt (bufferSlice buf (off + 14 + 2 * i)
                                                            (off + 16 + 2 * i))) [0..<n]\<rparr>
         else Inl RangeError)"
proof -
  obtain e e' where E: "getEndianessFromFormat fmt = (e, e')" by (cases "getEndianessFromFormat fmt")
  have fv: "bytesValue e bs = fieldValue fmt bs" "bytesValue e' bs = fieldValue fmt bs" for bs
    using endianess_fieldValue [of fmt bs] E by simp_all
  show ?thesis
    unfolding parseEncodingTable_def E uint32_def uint16_def
    by (simp add: readUInt_def readArray_readUInt fv bytesValue_Little Let_def mult.commute add.assoc add.commute add.left_commute)
qed

lemma compressedEntries_eq:
  "readArray compressedEntryParser n buf off =
     (if n = 0 \<or> off + n * 5 \<le> length buf
      then Inr (map (\<lambda>i. \<lparr>leftSidedBearing = int (unat (buf ! (off + i * 5))),
              rightSideBearing = int (unat (buf ! (off + i * 5 + 1))),
              characterWidth = int (unat (buf ! (off + i * 5 + 2))),
              characterAscent = int (unat (buf ! (off + i * 5 + 3))),
              characterDescent = int (unat (buf ! (off + i * 5 + 4))),
              characterAttributes = 0\<rparr>) [0..<n], off + n * 5)
      else Inl RangeError)"
  by (rule readArray_fixed) (simp add: compressedEntryParser_eq)

lemma parseMetricsTable_compressed_eq:
  assumes "isCompressedMetrics fmt"
  shows "parseMetricsTable buf off fmt =
     (let count = fieldValue fmt (bufferSlice buf (off + 4) (off + 6))
      in if off + 6 + 5 * count \<le> length buf
         then Inr \<lparr>MetricsTable.format = leValue (bufferSlice buf off (off + 4)),
                   metricsCount = count,
                   metrics = map (\<lambda>i. compressedEntryAt buf (off + 6 + 5 * i)) [0..<count]\<rparr>
         else Inl RangeError)"
proof -
  obtain e e' where E: "getEndianessFromFormat fmt = (e, e')" by (cases "getEndianessFromFormat fmt")
  have fv: "bytesValue e bs = fieldValue fmt bs" "bytesValue e' bs = fieldValue fmt bs" for bs
    using endianess_fieldValue [of fmt bs] E by simp_all
  show ?thesis
    unfolding parseMetricsTable_def E uint32_def uint16_def
    using assms
    by (simp add: readUInt_def compressedEntries_eq fv bytesValue_Little Let_def rebias_def
        compressedEntryAt_def o_def mult.commute add.assoc add.commute add.left_commute)
qed

lemma defaultEntryParser_eq:
  "defaultEntryParser (fst (getEndianessFromFormat fmt)) buf off =
     (if off + 12 \<le> length buf then Inr (defaultEntryAt fmt buf off, off + 12)
      else Inl RangeError)"
  unfolding defaultEntryParser_def uint16_def
  by (simp add: readUInt_def endianess_fieldValue defaultEntryAt_def add.assoc
           del: add_2_eq_Suc add_2_eq_Suc')

lemma parseMetricsTable_default_eq:
  assumes "\<not> isCompressedMetrics fmt"
  shows "parseMetricsTable buf off fmt =
     (let count = fieldValue fmt (bufferSlice buf (off + 4) (off + 8))
      in if off + 8 + 12 * count \<le> length buf
         then Inr \<lparr>MetricsTable.format = leValue (bufferSlice buf off (off + 4)),
                   metricsCount = count,
                   metrics = map (\<lambda>i. defaultEntryAt fmt buf (off + 8 + 12 * i)) [0..<count]\<rparr>
         else Inl RangeError)"
proof -
  obtain e e' where E: "getEndianessFromFormat fmt = (e, e')" by (cases "getEndianessFromFormat fmt")
  have fv: "bytesValue e bs = fieldValue fmt bs" "bytesValue e' bs = fieldValue fmt bs" for bs
    using endianess_fieldValue [of fmt bs] E by simp_all
  have e: "e = fst (getEndianessFromFormat fmt)" using E by simp
  have arr: "readArray (defaultEntryParser e) n buf o2 =
     (if n = 0 \<or> o2 + n * 12 \<le> length buf
      then Inr (map (\<lambda>i. defaultEntryAt fmt buf (o2 + i * 12)) [0..<n], o2 + n * 12)
      else Inl RangeError)" for n o2
    unfolding e by (rule readArray_fixed) (simp add: defaultEntryParser_eq)
  show ?thesis
    unfolding parseMetricsTable_def E uint32_def
    using assms
    by (simp add: readUInt_def arr fv bytesValue_Little Let_def
        mult.commute add.assoc add.commute add.left_commute)
qed


lemma parseStrings_length: "parseStrings buf base offs = Inr strs \<Longrightarrow> length strs = length offs"
  by (induction offs arbitrary: strs) (auto simp: bindE_def split: sum.splits)

lemma parseGlyphNameTable_eq:
  "parseGlyphNameTable buf off fmt =
     (let count = fieldValue fmt (bufferSlice buf (off + 4) (off + 8));
          offs = map (\<lambda>i. fieldValue fmt (bufferSlice buf (off + 8 + 4 * i)
                                            (off + 12 + 4 * i))) [0..<count]
      in if off + 8 + 4 * count + 4 \<le> length buf
         then bindE (parseStrings buf (off + stringBaseOffset count) offs) (\<lambda>strs.
              Inr \<lparr>GlyphNameTable.format = leValue (bufferSlice buf off (off + 4)),
                   glyphCount = count, offsets = offs,
                   stringSize = fieldValue fmt (bufferSlice buf (off + 8 + 4 * count)
                                                  (off + 12 + 4 * count)),
                   strings = strs\<rparr>)
         else Inl RangeError)"
proof -
  obtain e e' where E: "getEndianessFromFormat fmt = (e, e')" by (cases "getEndianessFromFormat fmt")
  have fv: "bytesValue e bs = fieldValue fmt bs" "bytesValue e' bs = fieldValue fmt bs" for bs
    using endianess_fieldValue [of fmt bs] E by simp_all
  show ?thesis
    unfolding parseGlyphNameTable_def E uint32_def
    by (simp add: readUInt_def readArray_readUInt fv bytesValue_Little Let_def
        mult.commute add.assoc add.commute add.left_commute)
qed

lemma leValue_bytes:
  "leValue [b0, b1] = unat b0 + 256 * unat b1"
  "leValue [b0, b1, b2, b3] = unat b0 + 256 * unat b1 + 65536 * unat b2 + 16777216 * unat b3"
  "beValue [b0, b1] = 256 * unat b0 + unat b1"
  "beValue [b0, b1, b2, b3] = 16777216 * unat b0 + 65536 * unat b1 + 256 * unat b2 + unat b3"
  by (simp_all add: beValue_def)

lemma parseGlyphNameTable_InrD:
  assumes "parseGlyphNameTable buf off fmt = Inr g"
  shows "GlyphNameTable.format g = leValue (bufferSlice buf off (off + 4))"
    and "GlyphNameTable.glyphCount g = fieldValue fmt (bufferSlice buf (off + 4) (off + 8))"
    and "GlyphNameTable.offsets g = map (\<lambda>i. fieldValue fmt
          (bufferSlice buf (off + 8 + 4 * i) (off + 12 + 4 * i))) [0..<GlyphNameTable.glyphCount g]"
    and "stringSize g = fieldValue fmt (bufferSlice buf (off + 8 + 4 * GlyphNameTable.glyphCount g)
                                       (off + 12 + 4 * GlyphNameTable.glyphCount g))"
    and "off + 8 + 4 * GlyphNameTable.glyphCount g + 4 \<le> length buf"
proof -
  define count where "count = fieldValue fmt (bufferSlice buf (off + 4) (off + 8))"
  have c: "off + 8 + 4 * count + 4 \<le> length buf"
    using assms unfolding parseGlyphNameTable_eq Let_def count_def
    by (simp split: if_splits)
  obtain strs where g: "g = \<lparr>GlyphNameTable.format = leValue (bufferSlice buf off (off + 4)),
                   glyphCount = count, offsets = map (\<lambda>i. fieldValue fmt (bufferSlice buf (off + 8 + 4 * i)
                                            (off + 12 + 4 * i))) [0..<count],
                   stringSize = fieldValue fmt (bufferSlice buf (off + 8 + 4 * count)
                                                  (off + 12 + 4 * count)),
                   strings = strs\<rparr>"
    using assms c unfolding parseGlyphNameTable_eq Let_def count_def [symmetric]
    by (simp add: bindE_eq_Inr) blast
  show "GlyphNameTable.format g = leValue (bufferSlice buf off (off + 4))" by (simp add: g)
  show "GlyphNameTable.glyphCount g = fieldValue fmt (bufferSlice buf (off + 4) (off + 8))"
    by (simp add: g count_def)
  show "GlyphNameTable.offsets g = map (\<lambda>i. fieldValue fmt
          (bufferSlice buf (off + 8 + 4 * i) (off + 12 + 4 * i))) [0..<GlyphNameTable.glyphCount g]"
    by (simp add: g)
  show "stringSize g = fieldValue fmt (bufferSlice buf (off + 8 + 4 * GlyphNameTable.glyphCount g)
                                       (off + 12 + 4 * GlyphNameTable.glyphCount g))"
    by (simp add: g)
  show "off + 8 + 4 * GlyphNameTable.glyphCount g + 4 \<le> length buf"
    using c by (simp add: g)
qed

lemma parseEncodingTable_InrD:
  assumes "parseEncodingTable buf off fmt = Inr e"
  shows "EncodingTable.format e = leValue (bufferSlice buf off (off + 4))"
    and "minCharOrByte2 e = fieldValue fmt (bufferSlice buf (off + 4) (off + 6))"
    and "maxCharOrByte2 e = fieldValue fmt (bufferSlice buf (off + 6) (off + 8))"
    and "minByte1 e = fieldValue fmt (bufferSlice buf (off + 8) (off + 10))"
    and "maxByte1 e = fieldValue fmt (bufferSlice buf (off + 10) (off + 12))"
    and "defaultChar e = fieldValue fmt (bufferSlice buf (off + 12) (off + 14))"
    and "glyphIndeces e = map (\<lambda>i. fieldValue fmt
          (bufferSlice buf (off + 14 + 2 * i) (off + 16 + 2 * i)))
          [0..<nat (encodingLength (minCharOrByte2 e) (maxCharOrByte2 e) (minByte1 e) (maxByte1 e))]"
    and "off + 14 + 2 * nat (encodingLength (minCharOrByte2 e) (maxCharOrByte2 e)
           (minByte1 e) (maxByte1 e)) \<le> length buf"
proof -
  define n where "n = nat (encodingLength (fieldValue fmt (bufferSlice buf (off + 4) (off + 6)))
     (fieldValue fmt (bufferSlice buf (off + 6) (off + 8)))
     (fieldValue fmt (bufferSlice buf (off + 8) (off + 10)))
     (fieldValue fmt (bufferSlice buf (off + 10) (off + 12))))"
  have c: "off + 14 + 2 * n \<le> length buf"
    using assms unfolding parseEncodingTable_eq Let_def n_def
    by (simp split: if_splits)
  have e: "e = \<lparr>EncodingTable.format = leValue (bufferSlice buf off (off + 4)),
                   minCharOrByte2 = fieldValue fmt (bufferSlice buf (off + 4) (off + 6)),
                   maxCharOrByte2 = fieldValue fmt (bufferSlice buf (off + 6) (off + 8)),
                   minByte1 = fieldValue fmt (bufferSlice buf (off + 8) (off + 10)),
                   maxByte1 = fieldValue fmt (bufferSlice buf (off + 10) (off + 12)),
                   defaultChar = fieldValue fmt (bufferSlice buf (off + 12) (off + 14)),
                   glyphIndeces = map (\<lambda>i. fieldValue fmt (bufferSlice buf (off + 14 + 2 * i)
                                                            (off + 16 + 2 * i))) [0..<n]\<rparr>"
    using assms c unfolding parseEncodingTable_eq Let_def n_def [symmetric]
    by simp
  show "EncodingTable.format e = leValue (bufferSlice buf off (off + 4))" by (simp add: e)
  show "minCharOrByte2 e = fieldValue fmt (bufferSlice buf (off + 4) (off + 6))" by (simp add: e)
  show "maxCharOrByte2 e = fieldValue fmt (bufferSlice buf (off + 6) (off + 8))" by (simp add: e)
  show "minByte1 e = fieldValue fmt (bufferSlice buf (off + 8) (off + 10))" by (simp add: e)
  show "maxByte1 e = fieldValue fmt (bufferSlice buf (off + 10) (off + 12))" by (simp add: e)
  show "defaultChar e = fieldValue fmt (bufferSlice buf (off + 12) (off + 14))" by (simp add: e)
  show "glyphIndeces e = map (\<lambda>i. fieldValue fmt
          (bufferSlice buf (off + 14 + 2 * i) (off + 16 + 2 * i)))
          [0..<nat (encodingLength (minCharOrByte2 e) (maxCharOrByte2 e) (minByte1 e) (maxByte1 e))]"
    by (simp add: e n_def)
  show "off + 14 + 2 * nat (encodingLength (minCharOrByte2 e) (maxCharOrByte2 e)
           (minByte1 e) (maxByte1 e)) \<le> length buf"
    using c by (simp add: e n_def)
qed

lemma parseMetricsTable_compressed_InrD:
  assumes "parseMetricsTable buf off fmt = Inr m" and "isCompressedMetrics fmt"
  shows "MetricsTable.format m = leValue (bufferSlice buf off (off + 4))"
    and "metricsCount m = fieldValue fmt (bufferSlice buf (off + 4) (off + 6))"
    and "MetricsTable.metrics m = map (\<lambda>i. compressedEntryAt buf (off + 6 + 5 * i)) [0..<metricsCount m]"
    and "off + 6 + 5 * metricsCount m \<le> length buf"
proof -
  define count where "count = fieldValue fmt (bufferSlice buf (off + 4) (off + 6))"
  have c: "off + 6 + 5 * count \<le> length buf"
    using assms(1) unfolding parseMetricsTable_compressed_eq [OF assms(2)] Let_def count_def
    by (simp split: if_splits)
  have m: "m = \<lparr>MetricsTable.format = leValue (bufferSlice buf off (off + 4)),
                   metricsCount = count,
                   metrics = map (\<lambda>i. compressedEntryAt buf (off + 6 + 5 * i)) [0..<count]\<rparr>"
    using assms(1) c unfolding parseMetricsTable_compressed_eq [OF assms(2)] Let_def count_def [symmetric]
    by simp
  show "MetricsTable.format m = leValue (bufferSlice buf off (off + 4))" by (simp add: m)
  show "metricsCount m = fieldValue fmt (bufferSlice buf (off + 4) (off + 6))"
    by (simp add: m count_def)
  show "MetricsTable.metrics m = map (\<lambda>i. compressedEntryAt buf (off + 6 + 5 * i)) [0..<metricsCount m]"
    by (simp add: m)
  show "off + 6 + 5 * metricsCount m \<le> length buf" using c by (simp add: m)
qed

lemma parseMetricsTable_default_InrD:
  assumes "parseMetricsTable buf off fmt = Inr m" and "\<not> isCompressedMetrics fmt"
  shows "MetricsTable.format m = leValue (bufferSlice buf off (off + 4))"
    and "metricsCount m = fieldValue fmt (bufferSlice buf (off + 4) (off + 8))"
    and "MetricsTable.metrics m = map (\<lambda>i. defaultEntryAt fmt buf (off + 8 + 12 * i)) [0..<metricsCount m]"
    and "off + 8 + 12 * metricsCount m \<le> length buf"
proof -
  define count where "count = fieldValue fmt (bufferSlice buf (off + 4) (off + 8))"
  have c: "off + 8 + 12 * count \<le> length buf"
    using assms(1) unfolding parseMetricsTable_default_eq [OF assms(2)] Let_def count_def
    by (simp split: if_splits)
  have m: "m = \<lparr>MetricsTable.format = leValue (bufferSlice buf off (off + 4)),
                   metricsCount = count,
                   metrics = map (\<lambda>i. defaultEntryAt fmt buf (off + 8 + 12 * i)) [0..<count]\<rparr>"
    using assms(1) c unfolding parseMetricsTable_default_eq [OF assms(2)] Let_def count_def [symmetric]
    by simp
  show "MetricsTable.format m = leValue (bufferSlice buf off (off + 4))" by (simp add: m)
  show "metricsCount m = fieldValue fmt (bufferSlice buf (off + 4) (off + 8))"
    by (simp add: m count_def)
  show "MetricsTable.metrics m = map (\<lambda>i. defaultEntryAt fmt buf (off + 8 + 12 * i)) [0..<metricsCount m]"
    by (simp add: m)
  show "off + 8 + 12 * metricsCount m \<le> length buf" using c by (simp add: m)
qed

lemma parseBitmapTable_InrD:
  assumes "parseBitmapTable buf off fmt = Inr b"
  shows "BitmapTable.format b = leValue (bufferSlice buf off (off + 4))"
    and "BitmapTable.glyphCount b = fieldValue fmt (bufferSlice buf (off + 4) (off + 8))"
    and "BitmapTable.offsets b = map (\<lambda>i. fieldValue fmt
          (bufferSlice buf (off + 8 + 4 * i) (off + 12 + 4 * i))) [0..<BitmapTable.glyphCount b]"
    and "bitmapSizes b = map (\<lambda>i. fieldValue fmt
          (bufferSlice buf (off + 8 + 4 * BitmapTable.glyphCount b + 4 * i)
                           (off + 12 + 4 * BitmapTable.glyphCount b + 4 * i))) [0..<4]"
    and "bitmapSize b = bitmapSizes b ! (BitmapTable.format b AND 3)"
    and "bitmapsBaseOffset b = off + 4 * 2 + 4 * BitmapTable.glyphCount b + 4 * 4"
    and "off + 8 + 4 * BitmapTable.glyphCount b + 16 \<le> length buf"
proof -
  define count where "count = fieldValue fmt (bufferSlice buf (off + 4) (off + 8))"
  define sizes where "sizes = map (\<lambda>i. fieldValue fmt (bufferSlice buf (off + 8 + 4 * count + 4 * i)
                                             (off + 12 + 4 * count + 4 * i))) [0..<4]"
  have c: "off + 8 + 4 * count + 16 \<le> length buf"
    using assms unfolding parseBitmapTable_eq Let_def count_def
    by (simp split: if_splits)
  have b: "b = \<lparr>BitmapTable.format = leValue (bufferSlice buf off (off + 4)), glyphCount = count,
                   offsets = map (\<lambda>i. fieldValue fmt (bufferSlice buf (off + 8 + 4 * i)
                                                       (off + 12 + 4 * i))) [0..<count],
                   bitmapSizes = sizes,
                   bitmapSize = sizes ! (leValue (bufferSlice buf off (off + 4)) AND 3),
                   bitmapsBaseOffset = off + 4 * 2 + 4 * count + 4 * 4\<rparr>"
    using assms c unfolding parseBitmapTable_eq Let_def count_def [symmetric] sizes_def [symmetric]
    by simp
  show "BitmapTable.format b = leValue (bufferSlice buf off (off + 4))" by (simp add: b)
  show "BitmapTable.glyphCount b = fieldValue fmt (bufferSlice buf (off + 4) (off + 8))"
    by (simp add: b count_def)
  show "BitmapTable.offsets b = map (\<lambda>i. fieldValue fmt
          (bufferSlice buf (off + 8 + 4 * i) (off + 12 + 4 * i))) [0..<BitmapTable.glyphCount b]"
    by (simp add: b)
  show "bitmapSizes b = map (\<lambda>i. fieldValue fmt
          (bufferSlice buf (off + 8 + 4 * BitmapTable.glyphCount b + 4 * i)
                           (off + 12 + 4 * BitmapTable.glyphCount b + 4 * i))) [0..<4]"
    by (simp add: b sizes_def)
  show "bitmapSize b = bitmapSizes b ! (BitmapTable.format b AND 3)" by (simp add: b)
  show "bitmapsBaseOffset b = off + 4 * 2 + 4 * BitmapTable.glyphCount b + 4 * 4" by (simp add: b)
  show "off + 8 + 4 * BitmapTable.glyphCount b + 16 \<le> length buf" using c by (simp add: b)
qed

lemma upt_small:
  "[0..<1] = [0]" "[0..<2] = [0, 1]" "[0..<3] = [0, 1, 2]" "[0..<4] = [0, 1, 2, 3]"
  by (simp_all add: eval_nat_numeral)

lemma fieldValue_4: "fieldValue 4 bs = beValue bs"
  by (simp add: fieldValue_def bit_Suc_0_iff)

lemma ex_gn: "parseGlyphNameTable tableExample 0 4 =
     Inr \<lparr>GlyphNameTable.format = 4, glyphCount = 1, offsets = [0], stringSize = 3,
          strings = [[0x41, 0x42]]\<rparr>"
  by (simp add: parseGlyphNameTable_eq tableExample_def fieldValue_4 bufferSlice_def beValue_def
        stringBaseOffset_def readCString_def Let_def upt_small)

lemma ex_enc: "parseEncodingTable tableExample 0 4 =
     Inr \<lparr>EncodingTable.format = 4, minCharOrByte2 = 0, maxCharOrByte2 = 1, minByte1 = 0,
          maxByte1 = 0, defaultChar = 0, glyphIndeces = [3, 0x4142]\<rparr>"
  by (simp add: parseEncodingTable_eq tableExample_def fieldValue_4 bufferSlice_def beValue_def
        encodingLength_def Let_def upt_small)

lemma ex_met: "parseMetricsTable tableExample 0 4 =
     Inr \<lparr>MetricsTable.format = 4, metricsCount = 1,
          metrics = [\<lparr>leftSidedBearing = 0, rightSideBearing = 0, characterWidth = 0,
                      characterAscent = 3, characterDescent = 0x4142,
                      characterAttributes = 7\<rparr>]\<rparr>"
proof -
  have n: "\<not> isCompressedMetrics 4" by (simp add: isCompressedMetrics_def)
  show ?thesis
    by (simp add: parseMetricsTable_default_eq [OF n] tableExample_def fieldValue_4 bufferSlice_def
        beValue_def defaultEntryAt_def Let_def upt_small)
qed

lemma ex_bmp: "parseBitmapTable tableExample 0 4 =
     Inr \<lparr>BitmapTable.format = 4, glyphCount = 1, offsets = [0],
          bitmapSizes = [3, 0x41420007, 5, 6], bitmapSize = 3, bitmapsBaseOffset = 28\<rparr>"
  by (simp add: parseBitmapTable_eq tableExample_def fieldValue_4 bufferSlice_def beValue_def
        Let_def upt_small)











lemma headerTableParser_eq:
  "headerTableParser buf off =
     (if off + 16 \<le> length buf then Inr (entryAt buf off, off + 16) else Inl RangeError)"
  unfolding headerTableParser_def uint32_def
  by (simp add: readUInt_def bytesValue_Little entryAt_def add.assoc)

lemma mainParser_eq:
  "mainParser buf =
     (if 8 + 16 * leValue (bufferSlice buf 4 8) \<le> length buf
      then Inr \<lparr>header = bufferSlice buf 0 4, tableCount = leValue (bufferSlice buf 4 8),
                tocEntry = map (\<lambda>i. entryAt buf (8 + 16 * i)) [0..<leValue (bufferSlice buf 4 8)],
                glyphNameTable = None, encodingTable = None, metricsTable = None,
                bitmapTable = None\<rparr>
      else Inl RangeError)"
proof -
  have arr: "readArray headerTableParser n buf o2 =
     (if n = 0 \<or> o2 + n * 16 \<le> length buf
      then Inr (map (\<lambda>i. entryAt buf (o2 + i * 16)) [0..<n], o2 + n * 16)
      else Inl RangeError)" for n o2
    by (rule readArray_fixed) (simp add: headerTableParser_eq)
  show ?thesis
    unfolding mainParser_def uint32_def
    by (simp add: readUInt_def arr bytesValue_Little mult.commute)
qed

lemma mainParser_error: "mainParser buf = Inl err \<Longrightarrow> err = RangeError"
  unfolding mainParser_eq by (simp split: if_splits)

lemma mainParser_header: "mainParser buf = Inr m \<Longrightarrow> header m = take 4 buf"
  unfolding mainParser_eq by (auto simp: bufferSlice_def split: if_splits)



lemma convert_fail: "snd (parse buf) = Inl e \<Longrightarrow> convert a gb buf = Inl e"
  by (cases "parse buf") (auto simp: convert_def convertGlyphs_def split: sum.splits)

lemma fieldValue_0: "fieldValue 0 bs = leValue bs"
  by (simp add: fieldValue_def)




lemma arrayGet_Some: "k < length xs \<Longrightarrow> arrayGet xs (Some k) = Some (xs ! k)"
  by (simp add: arrayGet_def)

lemma bitmapExtent_in_range:
  assumes "length (BitmapTable.offsets t) = BitmapTable.glyphCount t"
    and "i < BitmapTable.glyphCount t"
  shows "bitmapExtent t (Some i) =
           (Some (BitmapTable.offsets t ! i + bitmapsBaseOffset t),
            Some ((if i + 1 < BitmapTable.glyphCount t then BitmapTable.offsets t ! (i + 1)
                   else bitmapSize t) + bitmapsBaseOffset t))"
proof (cases "i + 1 < BitmapTable.glyphCount t")
  case True
  then have "int i < int (BitmapTable.glyphCount t) - 1" by simp
  then show ?thesis using True assms by (simp add: bitmapExtent_def arrayGet_def)
next
  case False
  then have "\<not> int i < int (BitmapTable.glyphCount t) - 1" by simp
  then show ?thesis using False assms by (simp add: bitmapExtent_def arrayGet_def)
qed

lemma bitmapExample_parse: "parseBitmapTable bitmapExample 0 0 = Inr bitmapExampleTable"
  by (simp add: parseBitmapTable_eq bitmapExample_def bitmapExampleTable_def fieldValue_0
      bufferSlice_def Let_def upt_small)

lemma glyphRecord_code: "glyphRecord parser c i = Inr g \<Longrightarrow> code g = c \<and> index g = i"
  by (auto simp: glyphRecord_def bindE_def split: sum.splits)

lemma convertLoop_skip:
  assumes "pcf parser = Some p" and "encodingTable p = Some enc" and "metricsTable p = Some mt"
    and "c < length (glyphIndeces enc)" and "metricsCount mt \<le> glyphIndeces enc ! c"
  shows "convertLoop a gb parser c glyphs = convertLoop a gb parser (c + 1) glyphs"
  using assms by (subst convertLoop.simps) simp

lemma convertLoop_codes:
  assumes "convertLoop a gb parser c glyphs = Inr gs"
    and "pcf parser = Some p" and "encodingTable p = Some enc" and "metricsTable p = Some mt"
    and "g \<in> set gs"
  shows "g \<in> set glyphs \<or>
         (c \<le> code g \<and> code g < length (glyphIndeces enc) \<and>
          glyphIndeces enc ! code g < metricsCount mt \<and> isAcceptedGlyph a gb (code g) \<and>
          index g = glyphIndeces enc ! code g)"
  using assms
proof (induction a gb parser c glyphs rule: convertLoop.induct)
  case (1 a gb parser c glyphs)
  show ?case
  proof (cases "c < length (glyphIndeces enc)")
    case False
    then have "gs = glyphs"
      using "1.prems"(1-4) by (subst (asm) convertLoop.simps) simp
    then show ?thesis using "1.prems"(5) by simp
  next
    case inr: True
    show ?thesis
    proof (cases "glyphIndeces enc ! c < metricsCount mt \<and> isAcceptedGlyph a gb c")
      case False
      then have "convertLoop a gb parser (c + 1) glyphs = Inr gs"
        using "1.prems"(1-4) inr by (subst (asm) convertLoop.simps) auto
      from "1.IH"(2) [OF "1.prems"(2) "1.prems"(3) inr "1.prems"(4) _ this "1.prems"(2-5)] False
      show ?thesis by auto
    next
      case True
      then obtain r where r: "glyphRecord parser c (glyphIndeces enc ! c) = Inr r"
        and rest: "convertLoop a gb parser (c + 1) (glyphs @ [r]) = Inr gs"
        using "1.prems"(1-4) inr
        by (subst (asm) convertLoop.simps) (auto split: sum.splits)
      from "1.IH"(1) [OF "1.prems"(2) "1.prems"(3) inr "1.prems"(4) _ r rest "1.prems"(2-5)] True
      have "g \<in> set (glyphs @ [r]) \<or>
         (c + 1 \<le> code g \<and> code g < length (glyphIndeces enc) \<and>
          glyphIndeces enc ! code g < metricsCount mt \<and> isAcceptedGlyph a gb (code g) \<and>
          index g = glyphIndeces enc ! code g)" by simp
      then show ?thesis using glyphRecord_code [OF r] True inr by auto
    qed
  qed
qed

lemma skipParser_run:
  "convertLoop defaultArgv {} skipParser 0 [] =
     Inr [\<lparr>code = 1, index = 0, GlyphInfo.name = Some [0x41],
           GlyphInfo.metrics = Some sentinelEntry, bitmap = [0x80, 0x00, 0x00, 0x00]\<rparr>]"
  apply (subst convertLoop.simps)
  apply (simp add: skipParser_def)
  apply (subst convertLoop.simps)
  apply (simp add: isAcceptedGlyph_def defaultArgv_def glyphRecord_def getGlyphName_def
      getGlyphMetrics_def getGlyphBitmap_def getGlyphIndex_def arrayGet_def bitmapExtent_def
      sliceNumbers_def bufferSlice_def)
  apply (subst convertLoop.simps)
  apply simp
  done

lemma asciiLoop_eq: "asciiLoop c ret = ret \<union> {c..0xFF}"
proof (induction c ret rule: asciiLoop.induct)
  case (1 c ret)
  show ?case
  proof (cases "c \<le> 0xFF")
    case True
    have "{c..255} = insert c {c + 1..255}" using True by auto
    then show ?thesis using True "1.IH" by (subst asciiLoop.simps) simp
  next
    case False
    then show ?thesis by (subst asciiLoop.simps) simp
  qed
qed

lemma ASCII_SET_eq: "ASCII_SET = {0x20..0xFF}"
  by (simp add: ASCII_SET_def asciiLoop_eq)

lemma byteToBinaryString_length: "length (byteToBinaryString byte) = 8"
  by (simp add: byteToBinaryString_def replaceChar_def Let_def)

lemma byteToBinaryString_None: "byteToBinaryString None = ''_____NaN''"
  by (simp add: byteToBinaryString_def replaceChar_def Let_def WHITE_PIXEL_def BLACK_PIXEL_def)

lemma byteToBinaryString_None_white:
  "k < 8 \<Longrightarrow> byteToBinaryString None ! k \<noteq> BLACK_PIXEL"
proof -
  assume "k < 8"
  then have "k \<in> {0, 1, 2, 3, 4, 5, 6, 7}" by auto
  then show ?thesis
    unfolding byteToBinaryString_None by (auto simp: BLACK_PIXEL_def)
qed

lemma binaryLine_eq:
  "binaryLine bm i =
     byteToBinaryString (arrayGet bm (Some i)) @
     byteToBinaryString (arrayGet bm (Some (i + 1))) @
     byteToBinaryString (arrayGet bm (Some (i + 2))) @
     byteToBinaryString (arrayGet bm (Some (i + 3)))"
  by (simp add: binaryLine_def BYTES_PER_LINE_def upt_small)

lemma binaryLine_length: "length (binaryLine bm i) = 32"
  by (simp add: binaryLine_eq byteToBinaryString_length)

lemma binaryLine_nth:
  assumes "x < 32"
  shows "binaryLine bm i ! x = byteToBinaryString (arrayGet bm (Some (i + x div 8))) ! (x mod 8)"
proof -
  consider "x < 8" | "8 \<le> x" "x < 16" | "16 \<le> x" "x < 24" | "24 \<le> x" "x < 32"
    using assms by linarith
  then show ?thesis
  proof cases
    case 1
    then show ?thesis by (simp add: binaryLine_eq nth_append byteToBinaryString_length)
  next
    case 2
    then have "x div 8 = 1" "x mod 8 = x - 8" "\<not> x < 8" "x - 8 < 8" by presburger+
    then show ?thesis by (simp add: binaryLine_eq nth_append byteToBinaryString_length)
  next
    case 3
    then have "x div 8 = 2" "x mod 8 = x - 16" "\<not> x < 8" "\<not> x - 8 < 8" "x - 8 - 8 < 8"
      "x - 8 - 8 = x - 16" by presburger+
    then show ?thesis by (simp add: binaryLine_eq nth_append byteToBinaryString_length)
  next
    case 4
    then have "x div 8 = 3" "x mod 8 = x - 24" "\<not> x < 8" "\<not> x - 8 < 8" "\<not> x - 8 - 8 < 8"
      "x - 8 - 8 - 8 = x - 24" by presburger+
    then show ?thesis by (simp add: binaryLine_eq nth_append byteToBinaryString_length)
  qed
qed

lemma binaryLine_black:
  assumes "x < 32" and "binaryLine bm i ! x = BLACK_PIXEL"
  shows "i + x div 8 < length bm"
proof (rule ccontr)
  assume "\<not> i + x div 8 < length bm"
  then have "arrayGet bm (Some (i + x div 8)) = None" by (simp add: arrayGet_def)
  then have "binaryLine bm i ! x = byteToBinaryString None ! (x mod 8)"
    using binaryLine_nth [OF assms(1)] by simp
  then show False using assms(2) byteToBinaryString_None_white [of "x mod 8"] by simp
qed

lemma sliceFromStart_prefix:
  assumes "x < length (sliceFromStart line width)"
  shows "x < length line" and "sliceFromStart line width ! x = line ! x"
  using assms by (auto simp: sliceFromStart_def split: if_splits)

lemma bitmapLinesLoop_eq:
  "bitmapLinesLoop bm width i lines =
     lines @ map (\<lambda>k. sliceFromStart (binaryLine bm (i + 4 * k)) width)
               [0..<(length bm + 3 - i) div 4]"
proof (induction bm width i lines rule: bitmapLinesLoop.induct)
  case (1 bm width i lines)
  show ?case
  proof (cases "i < length bm")
    case True
    define n where "n = (length bm + 3 - (i + 4)) div 4"
    have e: "length bm + 3 - i = (length bm + 3 - (i + 4)) + 4" using True by simp
    have n: "(length bm + 3 - i) div 4 = Suc n" unfolding n_def by (subst e) simp
    have n': "(length bm + 3 - (i + 4)) div 4 = n" by (simp add: n_def)
    have "bitmapLinesLoop bm width i lines =
        bitmapLinesLoop bm width (i + 4) (lines @ [sliceFromStart (binaryLine bm i) width])"
      using True by (subst bitmapLinesLoop.simps) (simp add: BYTES_PER_LINE_def)
    also have "\<dots> = (lines @ [sliceFromStart (binaryLine bm i) width]) @
        map (\<lambda>k. sliceFromStart (binaryLine bm (i + 4 + 4 * k)) width) [0..<n]"
      using "1.IH" [OF True] n' by (simp add: BYTES_PER_LINE_def)
    also have "\<dots> = lines @ map (\<lambda>k. sliceFromStart (binaryLine bm (i + 4 * k)) width) [0..<Suc n]"
      by (simp only: map_upt_Suc) (simp add: add.assoc)
    finally show ?thesis by (simp only: n)
  next
    case False
    then have "(length bm + 3 - i) div 4 = 0" by simp
    then show ?thesis using False by (subst bitmapLinesLoop.simps) simp
  qed
qed

lemma bitmapToBinaryLines_eq:
  "bitmapToBinaryLines bm width =
     map (\<lambda>k. sliceFromStart (binaryLine bm (4 * k)) width) [0..<(length bm + 3) div 4]"
  by (simp add: bitmapToBinaryLines_def bitmapLinesLoop_eq)

lemma ceiling_quarter: "\<lceil>real n / 4\<rceil> = int ((n + 3) div 4)"
proof (rule ceiling_unique)
  have "4 * ((n + 3) div 4) \<le> n + 3" by simp
  then have "real (4 * ((n + 3) div 4)) \<le> real (n + 3)" by (rule of_nat_mono)
  then show "real_of_int (int ((n + 3) div 4)) - 1 < real n / 4" by simp
  have "n \<le> 4 * ((n + 3) div 4)" by presburger
  then have "real n \<le> real (4 * ((n + 3) div 4))" by (rule of_nat_mono)
  then show "real n / 4 \<le> real_of_int (int ((n + 3) div 4))" by simp
qed

lemma partialRowExample_lines:
  "bitmapToBinaryLines partialRowExample 9 = [''#________'', ''########_'']"
  unfolding partialRowExample_def by code_simp



lemma pathPoints_append: "pathPoints (p @ q) = pathPoints p @ pathPoints q"
  by (simp add: pathPoints_def)

lemma pathPoints_square:
  "pathPoints (drawSquareDot p l t r b) = pathPoints p @ [(l, t), (l, b), (r, b), (r, t), (l, t)]"
  by (simp add: drawSquareDot_def moveTo_def lineTo_def pathPoints_def)






lemma pathPoints_Nil: "pathPoints [] = []"
  by (simp add: pathPoints_def)

lemma Math_round_bounds: "x - 1 / 2 < Math_round x" "Math_round x \<le> x + 1 / 2"
  unfolding Math_round_def by linarith+

lemma square_inside:
  fixes X Y gt ps l r t b :: real
  assumes "9 / 2 < ps"
    and "X + ps / 9 - 1 / 2 < l" "l \<le> X + ps / 9 + 1 / 2"
    and "X + ps - ps / 9 - 1 / 2 < r" "r \<le> X + ps - ps / 9 + 1 / 2"
    and "gt - Y - ps / 9 - 1 / 2 < t" "t \<le> gt - Y - ps / 9 + 1 / 2"
    and "gt - Y - ps + ps / 9 - 1 / 2 < b" "b \<le> gt - Y - ps + ps / 9 + 1 / 2"
  shows "\<forall>pt \<in> set (pathPoints (drawSquareDot [] l t r b)).
           insideBox X (X + ps) (gt - Y - ps) (gt - Y) pt"
  using assms by (auto simp: pathPoints_square pathPoints_Nil insideBox_def)

lemma pathPoints_diamond:
  "pathPoints (drawDiamondDot p l t r b) = pathPoints p @
     [(l + (r - l) / 2, t), (l, t - (r - l) / 2), (l + (r - l) / 2, b),
      (r, t - (r - l) / 2), (l + (r - l) / 2, t)]"
  by (simp add: drawDiamondDot_def moveTo_def lineTo_def pathPoints_def Let_def)

lemma diamond_inside:
  fixes X Y gt ps l r t b :: real
  assumes "9 / 2 < ps"
    and "X + ps / 9 - 1 / 2 < l" "l \<le> X + ps / 9 + 1 / 2"
    and "X + ps - ps / 9 - 1 / 2 < r" "r \<le> X + ps - ps / 9 + 1 / 2"
    and "gt - Y - ps / 9 - 1 / 2 < t" "t \<le> gt - Y - ps / 9 + 1 / 2"
    and "gt - Y - ps + ps / 9 - 1 / 2 < b" "b \<le> gt - Y - ps + ps / 9 + 1 / 2"
  shows "\<forall>pt \<in> set (pathPoints (drawDiamondDot [] l t r b)).
           insideBox X (X + ps) (gt - Y - ps) (gt - Y) pt"
  using assms by (auto simp: pathPoints_diamond pathPoints_Nil insideBox_def; argo)

lemma pathPoints_circle:
  "pathPoints (drawCircleDot p l t r b) = pathPoints p @
     [(l + (r - l) / 2, t),
      (l + (r - l) / 2 - (r - l) / 2 * (551915 / 1000000), t),
      (l, t - (r - l) / 2 + (r - l) / 2 * (551915 / 1000000)),
      (l, t - (r - l) / 2),
      (l, t - (r - l) / 2 - (r - l) / 2 * (551915 / 1000000)),
      (l + (r - l) / 2 - (r - l) / 2 * (551915 / 1000000), b),
      (l + (r - l) / 2, b),
      (l + (r - l) / 2 + (r - l) / 2 * (551915 / 1000000), b),
      (r, t - (r - l) / 2 - (r - l) / 2 * (551915 / 1000000)),
      (r, t - (r - l) / 2),
      (r, t - (r - l) / 2 + (r - l) / 2 * (551915 / 1000000)),
      (l + (r - l) / 2 + (r - l) / 2 * (551915 / 1000000), t),
      (l + (r - l) / 2, t)]"
  by (simp add: drawCircleDot_def moveTo_def curveTo_def pathPoints_def Let_def)

lemma circle_inside:
  fixes X Y gt ps l r t b :: real
  assumes "9 / 2 < ps"
    and "X + ps / 9 - 1 / 2 < l" "l \<le> X + ps / 9 + 1 / 2"
    and "X + ps - ps / 9 - 1 / 2 < r" "r \<le> X + ps - ps / 9 + 1 / 2"
    and "gt - Y - ps / 9 - 1 / 2 < t" "t \<le> gt - Y - ps / 9 + 1 / 2"
    and "gt - Y - ps + ps / 9 - 1 / 2 < b" "b \<le> gt - Y - ps + ps / 9 + 1 / 2"
  shows "\<forall>pt \<in> set (pathPoints (drawCircleDot [] l t r b)).
           insideBox X (X + ps) (gt - Y - ps) (gt - Y) pt"
  using assms by (auto simp: pathPoints_circle pathPoints_Nil insideBox_def; argo)

lemma single_lines: "bitmapToBinaryLines [0x80, 0x00, 0x00, 0x00] 1 = [''#'']"
  by code_simp

lemma single_corners:
  "dotCorners a X Y gt 0 0 =
     ((Math_round (X + PIXEL_SIZE a / 9), Math_round (gt - (Y + PIXEL_SIZE a / 9))),
      (Math_round (X + PIXEL_SIZE a - PIXEL_SIZE a / 9),
       Math_round (gt - (Y + PIXEL_SIZE a - PIXEL_SIZE a / 9))))"
  by (simp add: dotCorners_def ScreenXyToFontXy_def PIXEL_PADDING_def Let_def)

lemma single_dots:
  "vectorizeLines a X Y gt 0 [''#''] [] =
     drawDot a [] (Math_round (X + PIXEL_SIZE a / 9)) (Math_round (gt - (Y + PIXEL_SIZE a / 9)))
       (Math_round (X + PIXEL_SIZE a - PIXEL_SIZE a / 9))
       (Math_round (gt - (Y + PIXEL_SIZE a - PIXEL_SIZE a / 9)))"
  by (simp add: single_corners BLACK_PIXEL_def)

lemma single_glyph:
  assumes "GlyphInfo.metrics g = Some m" and "characterWidth m = 1"
    and "bitmap g = [0x80, 0x00, 0x00, 0x00]"
  shows "vectorizeGlyph a g =
     Inr \<lparr>FontGlyph.name = GlyphInfo.name g, unicode = code g,
          advanceWidth = of_int 1 * PIXEL_SIZE a,
          path = closePath (vectorizeLines a
            (of_int (leftSidedBearing m) * PIXEL_SIZE a)
            ((DEFAULT_ASCENT_IN_PIXELS a - of_int (characterAscent m)) * PIXEL_SIZE a)
            (PIXEL_HEIGHT a * PIXEL_SIZE a - DESCENDER_HEIGHT a) 0 [''#''] [])\<rparr>"
  by (simp only: vectorizeGlyph_def Let_def assms single_lines option.case)

lemma pixel_size_bound:
  assumes "1 \<le> glyph_size_in_pixel a" and "glyph_size_in_pixel a \<le> 222"
  shows "9 / 2 < PIXEL_SIZE a"
proof -
  have pos: "0 < real_of_int (glyph_size_in_pixel a)" using assms(1) by simp
  have "real_of_int (glyph_size_in_pixel a) \<le> 222" using assms(2) by simp
  then have "9 / 2 * real_of_int (glyph_size_in_pixel a) < 1000" by simp
  then show ?thesis
    using pos by (simp add: PIXEL_SIZE_def UNITS_PER_EM_def PIXEL_HEIGHT_def pos_less_divide_eq)
qed

lemma pathPoints_closePath: "pathPoints (closePath p) = pathPoints p"
  by (simp add: closePath_def pathPoints_def)

lemma dot_counts:
  assumes "dot_shape a = ''square'' \<or> dot_shape a = ''circle'' \<or> dot_shape a = ''diamond''"
  shows "subPathCount (closePath (drawDot a [] l t r b)) = 1"
    and "subPathsClosed None None (closePath (drawDot a [] l t r b))"
  using assms
  by (auto simp: drawDot_def drawSquareDot_def drawCircleDot_def drawDiamondDot_def moveTo_def
      lineTo_def curveTo_def closePath_def subPathCount_def Let_def)

lemma dot_inside:
  fixes X Y gt ps :: real
  assumes "9 / 2 < PIXEL_SIZE a"
    and "dot_shape a = ''square'' \<or> dot_shape a = ''circle'' \<or> dot_shape a = ''diamond''"
  shows "\<forall>pt \<in> set (pathPoints (drawDot a []
            (Math_round (X + PIXEL_SIZE a / 9)) (Math_round (gt - (Y + PIXEL_SIZE a / 9)))
            (Math_round (X + PIXEL_SIZE a - PIXEL_SIZE a / 9))
            (Math_round (gt - (Y + PIXEL_SIZE a - PIXEL_SIZE a / 9))))).
           insideBox X (X + PIXEL_SIZE a) (gt - Y - PIXEL_SIZE a) (gt - Y) pt"
proof -
  let ?ps = "PIXEL_SIZE a"
  have b: "X + ?ps / 9 - 1 / 2 < Math_round (X + ?ps / 9)"
    "Math_round (X + ?ps / 9) \<le> X + ?ps / 9 + 1 / 2"
    "X + ?ps - ?ps / 9 - 1 / 2 < Math_round (X + ?ps - ?ps / 9)"
    "Math_round (X + ?ps - ?ps / 9) \<le> X + ?ps - ?ps / 9 + 1 / 2"
    "gt - Y - ?ps / 9 - 1 / 2 < Math_round (gt - (Y + ?ps / 9))"
    "Math_round (gt - (Y + ?ps / 9)) \<le> gt - Y - ?ps / 9 + 1 / 2"
    "gt - Y - ?ps + ?ps / 9 - 1 / 2 < Math_round (gt - (Y + ?ps - ?ps / 9))"
    "Math_round (gt - (Y + ?ps - ?ps / 9)) \<le> gt - Y - ?ps + ?ps / 9 + 1 / 2"
    using Math_round_bounds [of "X + ?ps / 9"] Math_round_bounds [of "X + ?ps - ?ps / 9"]
      Math_round_bounds [of "gt - (Y + ?ps / 9)"] Math_round_bounds [of "gt - (Y + ?ps - ?ps / 9)"]
    by linarith+
  consider "dot_shape a = ''square''" | "dot_shape a = ''circle''" | "dot_shape a = ''diamond''"
    using assms(2) by blast
  then show ?thesis
  proof cases
    case 1
    then show ?thesis using square_inside [OF assms(1) b] by (simp add: drawDot_def)
  next
    case 2
    then show ?thesis using circle_inside [OF assms(1) b] by (simp add: drawDot_def)
  next
    case 3
    then show ?thesis using diamond_inside [OF assms(1) b] by (simp add: drawDot_def)
  qed
qed

lemma square_padded:
  fixes X Y gt ps l r t b :: real
  assumes "9 / 2 < ps"
    and "X + ps / 9 - 1 / 2 < l" "l \<le> X + ps / 9 + 1 / 2"
    and "X + ps - ps / 9 - 1 / 2 < r" "r \<le> X + ps - ps / 9 + 1 / 2"
    and "gt - Y - ps / 9 - 1 / 2 < t" "t \<le> gt - Y - ps / 9 + 1 / 2"
    and "gt - Y - ps + ps / 9 - 1 / 2 < b" "b \<le> gt - Y - ps + ps / 9 + 1 / 2"
  shows "paddedBox (X + ps / 9) (X + ps - ps / 9) (gt - Y - ps + ps / 9) (gt - Y - ps / 9) (1 / 2)
           (pathPoints (drawSquareDot [] l t r b))"
  using assms unfolding paddedBox_def pathPoints_square pathPoints_Nil
  by (simp; argo)

lemma diamond_padded:
  fixes X Y gt ps l r t b :: real
  assumes "9 / 2 < ps"
    and "X + ps / 9 - 1 / 2 < l" "l \<le> X + ps / 9 + 1 / 2"
    and "X + ps - ps / 9 - 1 / 2 < r" "r \<le> X + ps - ps / 9 + 1 / 2"
    and "gt - Y - ps / 9 - 1 / 2 < t" "t \<le> gt - Y - ps / 9 + 1 / 2"
    and "gt - Y - ps + ps / 9 - 1 / 2 < b" "b \<le> gt - Y - ps + ps / 9 + 1 / 2"
  shows "paddedBox (X + ps / 9) (X + ps - ps / 9) (gt - Y - ps + ps / 9) (gt - Y - ps / 9) (1 / 2)
           (pathPoints (drawDiamondDot [] l t r b))"
  using assms unfolding paddedBox_def pathPoints_diamond pathPoints_Nil
  by (simp; argo)

lemma circle_padded:
  fixes X Y gt ps l r t b :: real
  assumes "9 / 2 < ps"
    and "X + ps / 9 - 1 / 2 < l" "l \<le> X + ps / 9 + 1 / 2"
    and "X + ps - ps / 9 - 1 / 2 < r" "r \<le> X + ps - ps / 9 + 1 / 2"
    and "gt - Y - ps / 9 - 1 / 2 < t" "t \<le> gt - Y - ps / 9 + 1 / 2"
    and "gt - Y - ps + ps / 9 - 1 / 2 < b" "b \<le> gt - Y - ps + ps / 9 + 1 / 2"
  shows "paddedBox (X + ps / 9) (X + ps - ps / 9) (gt - Y - ps + ps / 9) (gt - Y - ps / 9) (1 / 2)
           (pathPoints (drawCircleDot [] l t r b))"
  using assms unfolding paddedBox_def pathPoints_circle pathPoints_Nil
  by (simp; argo)


lemma dot_padded:
  fixes X Y gt :: real
  assumes "9 / 2 < PIXEL_SIZE a"
    and "dot_shape a = ''square'' \<or> dot_shape a = ''circle'' \<or> dot_shape a = ''diamond''"
  shows "paddedBox (X + PIXEL_SIZE a / 9) (X + PIXEL_SIZE a - PIXEL_SIZE a / 9)
           (gt - Y - PIXEL_SIZE a + PIXEL_SIZE a / 9) (gt - Y - PIXEL_SIZE a / 9) (1 / 2)
           (pathPoints (drawDot a []
            (Math_round (X + PIXEL_SIZE a / 9)) (Math_round (gt - (Y + PIXEL_SIZE a / 9)))
            (Math_round (X + PIXEL_SIZE a - PIXEL_SIZE a / 9))
            (Math_round (gt - (Y + PIXEL_SIZE a - PIXEL_SIZE a / 9)))))"
proof -
  let ?ps = "PIXEL_SIZE a"
  have b: "X + ?ps / 9 - 1 / 2 < Math_round (X + ?ps / 9)"
    "Math_round (X + ?ps / 9) \<le> X + ?ps / 9 + 1 / 2"
    "X + ?ps - ?ps / 9 - 1 / 2 < Math_round (X + ?ps - ?ps / 9)"
    "Math_round (X + ?ps - ?ps / 9) \<le> X + ?ps - ?ps / 9 + 1 / 2"
    "gt - Y - ?ps / 9 - 1 / 2 < Math_round (gt - (Y + ?ps / 9))"
    "Math_round (gt - (Y + ?ps / 9)) \<le> gt - Y - ?ps / 9 + 1 / 2"
    "gt - Y - ?ps + ?ps / 9 - 1 / 2 < Math_round (gt - (Y + ?ps - ?ps / 9))"
    "Math_round (gt - (Y + ?ps - ?ps / 9)) \<le> gt - Y - ?ps + ?ps / 9 + 1 / 2"
    using Math_round_bounds [of "X + ?ps / 9"] Math_round_bounds [of "X + ?ps - ?ps / 9"]
      Math_round_bounds [of "gt - (Y + ?ps / 9)"] Math_round_bounds [of "gt - (Y + ?ps - ?ps / 9)"]
    by linarith+
  consider "dot_shape a = ''square''" | "dot_shape a = ''circle''" | "dot_shape a = ''diamond''"
    using assms(2) by blast
  then show ?thesis
  proof cases
    case 1
    then show ?thesis using square_padded [OF assms(1) b] by (simp add: drawDot_def)
  next
    case 2
    then show ?thesis using circle_padded [OF assms(1) b] by (simp add: drawDot_def)
  next
    case 3
    then show ?thesis using diamond_padded [OF assms(1) b] by (simp add: drawDot_def)
  qed
qed

lemma Math_round_gap: "\<bar>Math_round x - x\<bar> \<le> 1 / 2"
  using Math_round_bounds [of x] by linarith

lemma argv_sizes:
  "PIXEL_SIZE defaultArgv = 1000 / 13" "PIXEL_HEIGHT defaultArgv = 13"
  "DESCENDER_HEIGHT defaultArgv = 3000 / 13" "DEFAULT_ASCENT_IN_PIXELS defaultArgv = 11"
  "PIXEL_PADDING defaultArgv = 1000 / 117"
  "PIXEL_SIZE argv223 = 1000 / 223" "PIXEL_HEIGHT argv223 = 223"
  "DESCENDER_HEIGHT argv223 = 3000 / 223" "DEFAULT_ASCENT_IN_PIXELS argv223 = 221"
  "PIXEL_PADDING argv223 = 1000 / 2007"
  by (simp_all add: PIXEL_SIZE_def PIXEL_HEIGHT_def DESCENDER_HEIGHT_def PIXEL_PADDING_def
      DEFAULT_ASCENT_IN_PIXELS_def UNITS_PER_EM_def defaultArgv_def argv223_def)

lemma argv_shapes: "dot_shape defaultArgv = ''square''" "dot_shape argv223 = ''square''"
  by (simp_all add: defaultArgv_def argv223_def)

lemma single_default:
  "vectorizeGlyph defaultArgv (singlePixelGlyph 11) =
     Inr \<lparr>FontGlyph.name = None, unicode = 0x41, advanceWidth = 1000 / 13,
          path = [MoveTo 9 761, LineTo 9 701, LineTo 68 701, LineTo 68 761, LineTo 9 761,
                  ClosePath]\<rparr>"
  by (simp add: vectorizeGlyph_def singlePixelGlyph_def singlePixelMetrics_def single_lines
      argv_sizes BLACK_PIXEL_def dotCorners_def ScreenXyToFontXy_def Math_round_def drawDot_def
      argv_shapes drawSquareDot_def moveTo_def lineTo_def closePath_def Let_def)

lemma sf_types:
  "tableTypeToString 0x80 = ''PCF_GLYPH_NAMES''" "tableTypeToString 0x20 = ''PCF_BDF_ENCODINGS''"
  "tableTypeToString 0x08 = ''PCF_BITMAPS''" "tableTypeToString 0x04 = ''PCF_METRICS''"
  by (simp_all add: tableTypeToString_def)






lemma head_len: "length sentinelFileHead = 136"
  by (simp add: sentinelFileHead_def)

lemma file_len: "length sentinelFile = 786568"
  by (simp add: sentinelFile_def head_len)

lemma slice_head:
  "e \<le> 136 \<Longrightarrow> bufferSlice sentinelFile s e = bufferSlice sentinelFileHead s e"
  by (simp add: sentinelFile_def bufferSlice_def head_len)

lemma glyphRecord_ok:
  assumes "pcf parser = Some p" and "encodingTable p = Some enc"
    and "glyphNameTable p = Some gn" and "metricsTable p = Some mt" and "bitmapTable p = Some bt"
  shows "\<exists>g. glyphRecord parser c i = Inr g \<and> code g = c \<and> index g = i"
  using assms
  by (simp add: glyphRecord_def getGlyphName_def getGlyphMetrics_def getGlyphBitmap_def
      getGlyphIndex_def split: prod.splits)

lemma convertLoop_all:
  assumes "pcf parser = Some p" and "encodingTable p = Some enc"
    and "glyphNameTable p = Some gn" and "metricsTable p = Some mt" and "bitmapTable p = Some bt"
  shows "\<exists>gs. convertLoop a gb parser c glyphs = Inr (glyphs @ gs) \<and>
           map (\<lambda>g. (code g, index g)) gs =
             map (\<lambda>k. (k, glyphIndeces enc ! k))
               (filter (\<lambda>k. glyphIndeces enc ! k < metricsCount mt \<and> isAcceptedGlyph a gb k)
                  [c..<length (glyphIndeces enc)])"
  using assms
proof (induction a gb parser c glyphs rule: convertLoop.induct)
  case (1 a gb parser c glyphs)
  show ?case
  proof (cases "c < length (glyphIndeces enc)")
    case False
    then have "convertLoop a gb parser c glyphs = Inr glyphs"
      using "1.prems" by (subst convertLoop.simps) simp
    then show ?thesis using False by simp
  next
    case inr: True
    have upt: "[c..<length (glyphIndeces enc)] = c # [c + 1..<length (glyphIndeces enc)]"
      using inr by (simp add: upt_conv_Cons)
    show ?thesis
    proof (cases "glyphIndeces enc ! c < metricsCount mt \<and> isAcceptedGlyph a gb c")
      case False
      then have e: "convertLoop a gb parser c glyphs = convertLoop a gb parser (c + 1) glyphs"
        using "1.prems" inr by (subst convertLoop.simps) auto
      from "1.IH"(2) [OF "1.prems"(1) "1.prems"(2) inr "1.prems"(4) _ "1.prems"] False
      obtain gs where "convertLoop a gb parser (c + 1) glyphs = Inr (glyphs @ gs)"
        and "map (\<lambda>g. (code g, index g)) gs =
             map (\<lambda>k. (k, glyphIndeces enc ! k))
               (filter (\<lambda>k. glyphIndeces enc ! k < metricsCount mt \<and> isAcceptedGlyph a gb k)
                  [c + 1..<length (glyphIndeces enc)])"
        by auto
      then show ?thesis using e False unfolding upt by auto
    next
      case True
      obtain g where g: "glyphRecord parser c (glyphIndeces enc ! c) = Inr g" and cg: "code g = c"
        "index g = glyphIndeces enc ! c"
        using glyphRecord_ok [OF "1.prems"] by blast
      have e: "convertLoop a gb parser c glyphs = convertLoop a gb parser (c + 1) (glyphs @ [g])"
        using "1.prems" inr True g by (subst convertLoop.simps) auto
      from "1.IH"(1) [OF "1.prems"(1) "1.prems"(2) inr "1.prems"(4) _ g "1.prems"] True
      obtain gs where "convertLoop a gb parser (c + 1) (glyphs @ [g]) = Inr ((glyphs @ [g]) @ gs)"
        and "map (\<lambda>g. (code g, index g)) gs =
             map (\<lambda>k. (k, glyphIndeces enc ! k))
               (filter (\<lambda>k. glyphIndeces enc ! k < metricsCount mt \<and> isAcceptedGlyph a gb k)
                  [c + 1..<length (glyphIndeces enc)])"
        by auto
      then have "convertLoop a gb parser c glyphs = Inr (glyphs @ (g # gs)) \<and>
          map (\<lambda>g. (code g, index g)) (g # gs) =
             map (\<lambda>k. (k, glyphIndeces enc ! k))
               (filter (\<lambda>k. glyphIndeces enc ! k < metricsCount mt \<and> isAcceptedGlyph a gb k)
                  [c..<length (glyphIndeces enc)])"
        using e True cg unfolding upt by simp
      then show ?thesis by blast
    qed
  qed
qed

lemma head_slice:
  "bufferSlice sentinelFileHead s e = take (e - s) (drop s
     [0x01, 0x66, 0x63, 0x70,  0x04, 0x00, 0x00, 0x00,
      0x80, 0x00, 0x00, 0x00,  0x00, 0x00, 0x00, 0x00,  0x0C, 0x00, 0x00, 0x00,  0x48, 0x00, 0x00, 0x00,
      0x20, 0x00, 0x00, 0x00,  0x00, 0x00, 0x00, 0x00,  0x12, 0x00, 0x00, 0x00,  0x54, 0x00, 0x00, 0x00,
      0x08, 0x00, 0x00, 0x00,  0x00, 0x00, 0x00, 0x00,  0x18, 0x00, 0x00, 0x00,  0x68, 0x00, 0x00, 0x00,
      0x04, 0x00, 0x00, 0x00,  0x00, 0x00, 0x00, 0x00,  0x08, 0x00, 0x0C, 0x00,  0x80, 0x00, 0x00, 0x00,
      0x00, 0x00, 0x00, 0x00,  0x00, 0x00, 0x00, 0x00,  0x00, 0x00, 0x00, 0x00,
      0x00, 0x00, 0x00, 0x00,  0x00, 0x00, 0x01, 0x00,  0x00, 0x00, 0x00, 0x00,  0x00, 0x00,
      0x00, 0x00, 0xFF, 0xFF,  0x00, 0x00,
      0x00, 0x00, 0x00, 0x00,  0x00, 0x00, 0x00, 0x00,
      0x00, 0x00, 0x00, 0x00,  0x00, 0x00, 0x00, 0x00,  0x00, 0x00, 0x00, 0x00,  0x00, 0x00, 0x00, 0x00,
      0x00, 0x00, 0x00, 0x00,  0x00, 0x00, 0x01, 0x00])"
  by (simp add: bufferSlice_def sentinelFileHead_def)

lemma sf_slices:
  "bufferSlice sentinelFile 0 4 = magic"
  "leValue (bufferSlice sentinelFile 4 8) = 4"
  by (simp_all add: slice_head head_slice magic_def)

lemma sf_entries:
  "entryAt sentinelFile 8 = \<lparr>TableDirectoryEntry.type = 0x80, TableDirectoryEntry.format = 0,
      TableDirectoryEntry.byteSize = 12, TableDirectoryEntry.offset = 72\<rparr>"
  "entryAt sentinelFile 24 = \<lparr>TableDirectoryEntry.type = 0x20, TableDirectoryEntry.format = 0,
      TableDirectoryEntry.byteSize = 18, TableDirectoryEntry.offset = 84\<rparr>"
  "entryAt sentinelFile 40 = \<lparr>TableDirectoryEntry.type = 0x08, TableDirectoryEntry.format = 0,
      TableDirectoryEntry.byteSize = 24, TableDirectoryEntry.offset = 104\<rparr>"
  "entryAt sentinelFile 56 = \<lparr>TableDirectoryEntry.type = 0x04, TableDirectoryEntry.format = 0,
      TableDirectoryEntry.byteSize = 786440, TableDirectoryEntry.offset = 128\<rparr>"
  by (simp_all add: entryAt_def slice_head head_slice)

lemma sf_main:
  "mainParser sentinelFile =
     Inr \<lparr>header = magic, tableCount = 4, tocEntry = sentinelToc, glyphNameTable = None,
          encodingTable = None, metricsTable = None, bitmapTable = None\<rparr>"
  by (simp add: mainParser_eq sf_slices file_len upt_small sf_entries sentinelToc_def)

lemma sf_gn:
  "parseGlyphNameTable sentinelFile 72 0 =
     Inr \<lparr>GlyphNameTable.format = 0, glyphCount = 0, offsets = [], stringSize = 0, strings = []\<rparr>"
  by (simp add: parseGlyphNameTable_eq fieldValue_0 slice_head head_slice file_len
      Let_def)

lemma sf_enc:
  "parseEncodingTable sentinelFile 84 0 =
     Inr \<lparr>EncodingTable.format = 0, minCharOrByte2 = 0, maxCharOrByte2 = 1, minByte1 = 0,
          maxByte1 = 0, defaultChar = 0, glyphIndeces = [0, 0xFFFF]\<rparr>"
  by (simp add: parseEncodingTable_eq fieldValue_0 slice_head head_slice file_len
      encodingLength_def Let_def upt_small)

lemma sf_bmp:
  "parseBitmapTable sentinelFile 104 0 =
     Inr \<lparr>BitmapTable.format = 0, glyphCount = 0, offsets = [], bitmapSizes = [0, 0, 0, 0],
          bitmapSize = 0, bitmapsBaseOffset = 128\<rparr>"
  by (simp add: parseBitmapTable_eq fieldValue_0 slice_head head_slice file_len
      Let_def upt_small)

lemma sf_met:
  "parseMetricsTable sentinelFile 128 0 =
     Inr \<lparr>MetricsTable.format = 0, metricsCount = 0x10000,
          metrics = map (\<lambda>i. defaultEntryAt 0 sentinelFile (128 + 8 + 12 * i)) [0..<0x10000]\<rparr>"
proof -
  have n: "\<not> isCompressedMetrics 0" by (simp add: isCompressedMetrics_def)
  have c: "fieldValue 0 (bufferSlice sentinelFile (128 + 4) (128 + 8)) = 0x10000"
    by (simp add: fieldValue_0 slice_head head_slice)
  have f: "leValue (bufferSlice sentinelFile 128 (128 + 4)) = 0"
    by (simp add: slice_head head_slice)
  show ?thesis
    unfolding parseMetricsTable_default_eq [OF n] Let_def c f file_len by simp
qed

lemma sf_parse: "parse sentinelFile = (sentinelFileParser, Inr (the (pcf sentinelFileParser)))"
  by (simp add: parse_def sf_main sentinelToc_def parseTable_def sf_types sf_gn sf_enc sf_bmp
      sf_met Let_def sentinelFileParser_def)

lemma sf_glyphs:
  "\<exists>gs. convertGlyphs defaultArgv {} sentinelFile = Inr gs \<and>
         map (\<lambda>g. (code g, index g)) gs = [(0, 0), (1, 0xFFFF)]"
proof -
  let ?gn = "\<lparr>GlyphNameTable.format = 0, glyphCount = 0, offsets = [],
          stringSize = 0, strings = []\<rparr>"
  let ?enc = "\<lparr>EncodingTable.format = 0, minCharOrByte2 = 0, maxCharOrByte2 = 1,
          minByte1 = 0, maxByte1 = 0, defaultChar = 0, glyphIndeces = [0, 0xFFFF]\<rparr>"
  let ?mt = "\<lparr>MetricsTable.format = 0, metricsCount = 0x10000,
          metrics = map (\<lambda>i. defaultEntryAt 0 sentinelFile (128 + 8 + 12 * i)) [0..<0x10000]\<rparr>"
  let ?bt = "\<lparr>BitmapTable.format = 0, glyphCount = 0, offsets = [],
          bitmapSizes = [0, 0, 0, 0], bitmapSize = 0, bitmapsBaseOffset = 128\<rparr>"
  let ?p = "\<lparr>header = magic, tableCount = 4, tocEntry = sentinelToc,
        glyphNameTable = Some ?gn, encodingTable = Some ?enc, metricsTable = Some ?mt,
        bitmapTable = Some ?bt\<rparr>"
  have h1: "pcf sentinelFileParser = Some ?p" by (simp add: sentinelFileParser_def)
  have h2: "encodingTable ?p = Some ?enc" by simp
  have h3: "glyphNameTable ?p = Some ?gn" by simp
  have h4: "metricsTable ?p = Some ?mt" by simp
  have h5: "bitmapTable ?p = Some ?bt" by simp
  from convertLoop_all [OF h1 h2 h3 h4 h5, of defaultArgv "{}" 0 "[]"]
  show ?thesis
    by (simp add: convertGlyphs_def sf_parse isAcceptedGlyph_def defaultArgv_def upt_small)
qed

lemma convertLoop_all_codes:
  assumes "pcf parser = Some p" and "encodingTable p = Some enc"
    and "glyphNameTable p = Some gn" and "metricsTable p = Some mt" and "bitmapTable p = Some bt"
  shows "\<exists>gs. convertLoop a gb parser 0 [] = Inr gs \<and>
           map code gs = filter (\<lambda>k. glyphIndeces enc ! k < metricsCount mt \<and> isAcceptedGlyph a gb k)
                           [0..<length (glyphIndeces enc)]"
proof -
  from convertLoop_all [OF assms, of a gb 0 "[]"]
  obtain gs where r: "convertLoop a gb parser 0 [] = Inr gs"
    and m: "map (\<lambda>g. (code g, index g)) gs =
             map (\<lambda>k. (k, glyphIndeces enc ! k))
               (filter (\<lambda>k. glyphIndeces enc ! k < metricsCount mt \<and> isAcceptedGlyph a gb k)
                  [0..<length (glyphIndeces enc)])"
    by auto
  have "map code gs = map fst (map (\<lambda>g. (code g, index g)) gs)" by (simp add: o_def)
  also have "\<dots> = filter (\<lambda>k. glyphIndeces enc ! k < metricsCount mt \<and> isAcceptedGlyph a gb k)
                           [0..<length (glyphIndeces enc)]"
    unfolding m by (simp add: o_def)
  finally show ?thesis using r by blast
qed

section \<open>The properties\<close>

text \<open>
  C1. In each of the four table decoders (glyph names, encodings, metrics, bitmaps) the
  first 32-bit field of the table, its format word, is read little-endian whatever the
  format flags are; every multi-byte field after it is read big-endian when bit 2 of the
  format word passed to the decoder is set, and little-endian when it is clear.
\<close>

theorem table_fields_endianness:
  "(parseGlyphNameTable buf off fmt = Inr g \<longrightarrow>
      GlyphNameTable.format g = leValue (bufferSlice buf off (off + 4)) \<and>
      GlyphNameTable.glyphCount g = fieldValue fmt (bufferSlice buf (off + 4) (off + 8)) \<and>
      length (GlyphNameTable.offsets g) = GlyphNameTable.glyphCount g \<and>
      (\<forall>i < GlyphNameTable.glyphCount g.
         GlyphNameTable.offsets g ! i =
           fieldValue fmt (bufferSlice buf (off + 8 + 4 * i) (off + 12 + 4 * i))) \<and>
      stringSize g = fieldValue fmt (bufferSlice buf (off + 8 + 4 * GlyphNameTable.glyphCount g)
                                       (off + 12 + 4 * GlyphNameTable.glyphCount g)))
   \<and> (parseEncodingTable buf off fmt = Inr e \<longrightarrow>
      EncodingTable.format e = leValue (bufferSlice buf off (off + 4)) \<and>
      minCharOrByte2 e = fieldValue fmt (bufferSlice buf (off + 4) (off + 6)) \<and>
      maxCharOrByte2 e = fieldValue fmt (bufferSlice buf (off + 6) (off + 8)) \<and>
      minByte1 e = fieldValue fmt (bufferSlice buf (off + 8) (off + 10)) \<and>
      maxByte1 e = fieldValue fmt (bufferSlice buf (off + 10) (off + 12)) \<and>
      defaultChar e = fieldValue fmt (bufferSlice buf (off + 12) (off + 14)) \<and>
      (\<forall>i < length (glyphIndeces e).
         glyphIndeces e ! i =
           fieldValue fmt (bufferSlice buf (off + 14 + 2 * i) (off + 16 + 2 * i))))
   \<and> (parseMetricsTable buf off fmt = Inr m \<longrightarrow>
      MetricsTable.format m = leValue (bufferSlice buf off (off + 4)) \<and>
      length (MetricsTable.metrics m) = metricsCount m \<and>
      (if isCompressedMetrics fmt
       then metricsCount m = fieldValue fmt (bufferSlice buf (off + 4) (off + 6))
       else metricsCount m = fieldValue fmt (bufferSlice buf (off + 4) (off + 8)) \<and>
            (\<forall>i < metricsCount m. MetricsTable.metrics m ! i = defaultEntryAt fmt buf (off + 8 + 12 * i))))
   \<and> (parseBitmapTable buf off fmt = Inr b \<longrightarrow>
      BitmapTable.format b = leValue (bufferSlice buf off (off + 4)) \<and>
      BitmapTable.glyphCount b = fieldValue fmt (bufferSlice buf (off + 4) (off + 8)) \<and>
      length (BitmapTable.offsets b) = BitmapTable.glyphCount b \<and>
      (\<forall>i < BitmapTable.glyphCount b.
         BitmapTable.offsets b ! i =
           fieldValue fmt (bufferSlice buf (off + 8 + 4 * i) (off + 12 + 4 * i))) \<and>
      length (bitmapSizes b) = 4 \<and>
      (\<forall>i < 4. bitmapSizes b ! i =
           fieldValue fmt (bufferSlice buf (off + 8 + 4 * BitmapTable.glyphCount b + 4 * i)
                             (off + 12 + 4 * BitmapTable.glyphCount b + 4 * i))))"
proof (intro conjI impI)
  assume a: "parseGlyphNameTable buf off fmt = Inr g"
  show "GlyphNameTable.format g = leValue (bufferSlice buf off (off + 4))"
    by (rule parseGlyphNameTable_InrD(1) [OF a])
  show "GlyphNameTable.glyphCount g = fieldValue fmt (bufferSlice buf (off + 4) (off + 8))"
    by (rule parseGlyphNameTable_InrD(2) [OF a])
  show "length (GlyphNameTable.offsets g) = GlyphNameTable.glyphCount g"
    by (simp add: parseGlyphNameTable_InrD(3) [OF a])
  show "\<forall>i < GlyphNameTable.glyphCount g. GlyphNameTable.offsets g ! i =
           fieldValue fmt (bufferSlice buf (off + 8 + 4 * i) (off + 12 + 4 * i))"
    by (simp add: parseGlyphNameTable_InrD(3) [OF a])
  show "stringSize g = fieldValue fmt (bufferSlice buf (off + 8 + 4 * GlyphNameTable.glyphCount g)
                                       (off + 12 + 4 * GlyphNameTable.glyphCount g))"
    by (rule parseGlyphNameTable_InrD(4) [OF a])
next
  assume a: "parseEncodingTable buf off fmt = Inr e"
  show "EncodingTable.format e = leValue (bufferSlice buf off (off + 4))"
    by (rule parseEncodingTable_InrD(1) [OF a])
  show "minCharOrByte2 e = fieldValue fmt (bufferSlice buf (off + 4) (off + 6))"
    by (rule parseEncodingTable_InrD(2) [OF a])
  show "maxCharOrByte2 e = fieldValue fmt (bufferSlice buf (off + 6) (off + 8))"
    by (rule parseEncodingTable_InrD(3) [OF a])
  show "minByte1 e = fieldValue fmt (bufferSlice buf (off + 8) (off + 10))"
    by (rule parseEncodingTable_InrD(4) [OF a])
  show "maxByte1 e = fieldValue fmt (bufferSlice buf (off + 10) (off + 12))"
    by (rule parseEncodingTable_InrD(5) [OF a])
  show "defaultChar e = fieldValue fmt (bufferSlice buf (off + 12) (off + 14))"
    by (rule parseEncodingTable_InrD(6) [OF a])
  have len: "length (glyphIndeces e) =
      nat (encodingLength (minCharOrByte2 e) (maxCharOrByte2 e) (minByte1 e) (maxByte1 e))"
    by (subst parseEncodingTable_InrD(7) [OF a]) simp
  show "\<forall>i < length (glyphIndeces e). glyphIndeces e ! i =
           fieldValue fmt (bufferSlice buf (off + 14 + 2 * i) (off + 16 + 2 * i))"
    unfolding len by (subst parseEncodingTable_InrD(7) [OF a]) simp
next
  assume a: "parseMetricsTable buf off fmt = Inr m"
  show "MetricsTable.format m = leValue (bufferSlice buf off (off + 4))"
    using parseMetricsTable_compressed_InrD(1) [OF a] parseMetricsTable_default_InrD(1) [OF a]
    by blast
  show "length (MetricsTable.metrics m) = metricsCount m"
  proof (cases "isCompressedMetrics fmt")
    case True
    show ?thesis by (subst parseMetricsTable_compressed_InrD(3) [OF a True]) simp
  next
    case False
    show ?thesis by (subst parseMetricsTable_default_InrD(3) [OF a False]) simp
  qed
  show "if isCompressedMetrics fmt
       then metricsCount m = fieldValue fmt (bufferSlice buf (off + 4) (off + 6))
       else metricsCount m = fieldValue fmt (bufferSlice buf (off + 4) (off + 8)) \<and>
            (\<forall>i < metricsCount m. MetricsTable.metrics m ! i = defaultEntryAt fmt buf (off + 8 + 12 * i))"
  proof (cases "isCompressedMetrics fmt")
    case True
    then show ?thesis using parseMetricsTable_compressed_InrD(2) [OF a True] by simp
  next
    case False
    have "\<forall>i < metricsCount m. MetricsTable.metrics m ! i = defaultEntryAt fmt buf (off + 8 + 12 * i)"
      by (subst parseMetricsTable_default_InrD(3) [OF a False]) simp
    then show ?thesis using False parseMetricsTable_default_InrD(2) [OF a False] by simp
  qed
next
  assume a: "parseBitmapTable buf off fmt = Inr b"
  show "BitmapTable.format b = leValue (bufferSlice buf off (off + 4))"
    by (rule parseBitmapTable_InrD(1) [OF a])
  show "BitmapTable.glyphCount b = fieldValue fmt (bufferSlice buf (off + 4) (off + 8))"
    by (rule parseBitmapTable_InrD(2) [OF a])
  show "length (BitmapTable.offsets b) = BitmapTable.glyphCount b"
    by (subst parseBitmapTable_InrD(3) [OF a]) simp
  show "\<forall>i < BitmapTable.glyphCount b. BitmapTable.offsets b ! i =
           fieldValue fmt (bufferSlice buf (off + 8 + 4 * i) (off + 12 + 4 * i))"
    by (subst parseBitmapTable_InrD(3) [OF a]) simp
  show "length (bitmapSizes b) = 4"
    by (subst parseBitmapTable_InrD(4) [OF a]) simp
  show "\<forall>i < 4. bitmapSizes b ! i =
           fieldValue fmt (bufferSlice buf (off + 8 + 4 * BitmapTable.glyphCount b + 4 * i)
                             (off + 12 + 4 * BitmapTable.glyphCount b + 4 * i))"
    by (subst parseBitmapTable_InrD(4) [OF a]) simp
qed

theorem table_fields_endianness_witness:
  "parseGlyphNameTable tableExample 0 4 =
     Inr \<lparr>GlyphNameTable.format = 4, glyphCount = 1, offsets = [0], stringSize = 3,
          strings = [[0x41, 0x42]]\<rparr> \<and>
   parseEncodingTable tableExample 0 4 =
     Inr \<lparr>EncodingTable.format = 4, minCharOrByte2 = 0, maxCharOrByte2 = 1, minByte1 = 0,
          maxByte1 = 0, defaultChar = 0, glyphIndeces = [3, 0x4142]\<rparr> \<and>
   parseMetricsTable tableExample 0 4 =
     Inr \<lparr>MetricsTable.format = 4, metricsCount = 1,
          metrics = [\<lparr>leftSidedBearing = 0, rightSideBearing = 0, characterWidth = 0,
                      characterAscent = 3, characterDescent = 0x4142,
                      characterAttributes = 7\<rparr>]\<rparr> \<and>
   parseBitmapTable tableExample 0 4 =
     Inr \<lparr>BitmapTable.format = 4, glyphCount = 1, offsets = [0],
          bitmapSizes = [3, 0x41420007, 5, 6], bitmapSize = 3, bitmapsBaseOffset = 28\<rparr> \<and>
   leValue (bufferSlice tableExample 0 4) = 4 \<and>
   fieldValue 4 (bufferSlice tableExample 4 8) = 1 \<and>
   leValue (bufferSlice tableExample 4 8) = 0x01000000 \<and>
   fieldValue 4 (bufferSlice tableExample 16 18) = 0x4142 \<and>
   leValue (bufferSlice tableExample 16 18) = 0x4241"
proof -
  let ?g = "\<lparr>GlyphNameTable.format = 4, glyphCount = 1, offsets = [0], stringSize = 3,
          strings = [[0x41, 0x42]]\<rparr>"
  let ?e = "\<lparr>EncodingTable.format = 4, minCharOrByte2 = 0, maxCharOrByte2 = 1, minByte1 = 0,
          maxByte1 = 0, defaultChar = 0, glyphIndeces = [3, 0x4142]\<rparr>"
  let ?m = "\<lparr>MetricsTable.format = 4, metricsCount = 1,
          metrics = [\<lparr>leftSidedBearing = 0, rightSideBearing = 0, characterWidth = 0,
                      characterAscent = 3, characterDescent = 0x4142,
                      characterAttributes = 7\<rparr>]\<rparr>"
  let ?b = "\<lparr>BitmapTable.format = 4, glyphCount = 1, offsets = [0],
          bitmapSizes = [3, 0x41420007, 5, 6], bitmapSize = 3, bitmapsBaseOffset = 28\<rparr>"
  note T = table_fields_endianness [of tableExample 0 4 ?g ?e ?m ?b]
  from T ex_gn have "GlyphNameTable.format ?g = leValue (bufferSlice tableExample 0 (0 + 4))"
    by blast
  then have c1: "leValue (bufferSlice tableExample 0 4) = 4" by simp
  from T ex_bmp have "BitmapTable.glyphCount ?b = fieldValue 4 (bufferSlice tableExample (0 + 4) (0 + 8))"
    by blast
  then have c2: "fieldValue 4 (bufferSlice tableExample 4 8) = 1" by simp
  from T ex_enc have "\<forall>i < length (glyphIndeces ?e). glyphIndeces ?e ! i =
      fieldValue 4 (bufferSlice tableExample (0 + 14 + 2 * i) (0 + 16 + 2 * i))"
    by blast
  from this [rule_format, of 1]
  have c3: "fieldValue 4 (bufferSlice tableExample 16 18) = 0x4142" by simp
  have c4: "leValue (bufferSlice tableExample 4 8) = 0x01000000"
    "leValue (bufferSlice tableExample 16 18) = 0x4241"
    by (simp_all add: tableExample_def bufferSlice_def)
  show ?thesis
    using ex_gn ex_enc ex_met ex_bmp c1 c2 c3 c4 by simp
qed

text \<open>
  C2. For a metrics table whose format marks compressed metrics, the decoder reads a 16-bit
  count and then that many entries of five unsigned bytes; each of the five fields is the
  byte minus 128 and the attributes are 0. The table is decoded exactly when the count's
  entries lie inside the buffer. A byte \<open>0x80\<close> gives 0, \<open>0x00\<close> gives -128 and \<open>0xFF\<close> gives 127.
\<close>

theorem compressed_metrics_decoding:
  assumes "isCompressedMetrics fmt"
  shows "parseMetricsTable buf off fmt =
     (if off + 6 + 5 * fieldValue fmt (bufferSlice buf (off + 4) (off + 6)) \<le> length buf
      then Inr \<lparr>MetricsTable.format = leValue (bufferSlice buf off (off + 4)),
                metricsCount = fieldValue fmt (bufferSlice buf (off + 4) (off + 6)),
                metrics = map (\<lambda>i. compressedEntryAt buf (off + 6 + 5 * i))
                           [0..<fieldValue fmt (bufferSlice buf (off + 4) (off + 6))]\<rparr>
      else Inl RangeError)
   \<and> compressedEntryAt [0x80, 0x00, 0xFF, 0x80, 0x80] 0 =
       \<lparr>leftSidedBearing = 0, rightSideBearing = - 128, characterWidth = 127,
        characterAscent = 0, characterDescent = 0, characterAttributes = 0\<rparr>"
  using parseMetricsTable_compressed_eq [OF assms, of buf off]
  by (simp add: Let_def compressedEntryAt_def)

theorem compressed_metrics_decoding_witness:
  "isCompressedMetrics 0x100 \<and>
   parseMetricsTable metricsExample 0 0x100 =
     Inr \<lparr>MetricsTable.format = 0x100, metricsCount = 1,
          metrics = [\<lparr>leftSidedBearing = 0, rightSideBearing = - 128, characterWidth = 127,
                      characterAscent = - 1, characterDescent = 1, characterAttributes = 0\<rparr>]\<rparr>"
proof -
  have c: "isCompressedMetrics 0x100" by (simp add: isCompressedMetrics_def)
  show ?thesis
    using c compressed_metrics_decoding [OF c, of metricsExample 0]
    by (simp add: metricsExample_def bufferSlice_def fieldValue_def compressedEntryAt_def)
qed

text \<open>
  C3, as the code has it. For a glyph index \<open>i\<close> below the glyph count, the accessor returns
  the bytes of the buffer from \<open>offsets[i] + bitmapsBaseOffset\<close> up to
  \<open>offsets[i+1] + bitmapsBaseOffset\<close> when \<open>i\<close> is not the last glyph and up to
  \<open>bitmapSize + bitmapsBaseOffset\<close> when it is the last. The size is chosen among the four
  stored sizes by the low two bits of the format word stored in the table itself (its
  first field), which are those of the directory's format word when the two words agree.
\<close>

theorem glyph_bitmap_extent:
  assumes "parseBitmapTable buf off fmt = Inr t"
    and "pcf parser = Some p" and "encodingTable p = Some enc" and "bitmapTable p = Some t"
    and "c < length (glyphIndeces enc)" and "glyphIndeces enc ! c = i"
    and "i < BitmapTable.glyphCount t"
  shows "getGlyphBitmap parser c =
           Inr (bufferSlice (rawBuffer parser)
                  (BitmapTable.offsets t ! i + bitmapsBaseOffset t)
                  ((if i + 1 < BitmapTable.glyphCount t then BitmapTable.offsets t ! (i + 1)
                    else bitmapSize t) + bitmapsBaseOffset t)) \<and>
         length (bitmapSizes t) = 4 \<and>
         bitmapSize t = bitmapSizes t ! (leValue (bufferSlice buf off (off + 4)) AND 3) \<and>
         (leValue (bufferSlice buf off (off + 4)) AND 3 = fmt AND 3 \<longrightarrow>
            bitmapSize t = bitmapSizes t ! (fmt AND 3))"
proof -
  have len: "length (BitmapTable.offsets t) = BitmapTable.glyphCount t"
    by (subst parseBitmapTable_InrD(3) [OF assms(1)]) simp
  have ext: "bitmapExtent t (Some i) =
           (Some (BitmapTable.offsets t ! i + bitmapsBaseOffset t),
            Some ((if i + 1 < BitmapTable.glyphCount t then BitmapTable.offsets t ! (i + 1)
                   else bitmapSize t) + bitmapsBaseOffset t))"
    by (rule bitmapExtent_in_range [OF len assms(7)])
  have idx: "getGlyphIndex parser c = Inr (Some i)"
    using assms(2,3,5,6) by (simp add: getGlyphIndex_def arrayGet_def)
  have g: "getGlyphBitmap parser c =
           Inr (bufferSlice (rawBuffer parser)
                  (BitmapTable.offsets t ! i + bitmapsBaseOffset t)
                  ((if i + 1 < BitmapTable.glyphCount t then BitmapTable.offsets t ! (i + 1)
                    else bitmapSize t) + bitmapsBaseOffset t))"
    unfolding getGlyphBitmap_def idx using assms(2,4) ext
    by (simp add: sliceNumbers_def)
  have s4: "length (bitmapSizes t) = 4"
    by (subst parseBitmapTable_InrD(4) [OF assms(1)]) simp
  have sz: "bitmapSize t = bitmapSizes t ! (leValue (bufferSlice buf off (off + 4)) AND 3)"
    using parseBitmapTable_InrD(5) [OF assms(1)] parseBitmapTable_InrD(1) [OF assms(1)] by simp
  show ?thesis using g s4 sz by simp
qed

theorem glyph_bitmap_extent_witness:
  "parseBitmapTable bitmapExample 0 0 = Inr bitmapExampleTable \<and>
   getGlyphBitmap bitmapExampleParser 0 = Inr (bufferSlice bitmapExample (0 + 36) (8 + 36)) \<and>
   getGlyphBitmap bitmapExampleParser 1 = Inr (bufferSlice bitmapExample (8 + 36) (20 + 36)) \<and>
   getGlyphBitmap bitmapExampleParser 2 = Inr (bufferSlice bitmapExample (20 + 36) (32 + 36)) \<and>
   bitmapSize bitmapExampleTable = 32"
proof -
  let ?p = "\<lparr>header = magic, tableCount = 0, tocEntry = [], glyphNameTable = None,
                  encodingTable = Some \<lparr>EncodingTable.format = 0, minCharOrByte2 = 0,
                    maxCharOrByte2 = 2, minByte1 = 0, maxByte1 = 0, defaultChar = 0,
                    glyphIndeces = [0, 1, 2]\<rparr>,
                  metricsTable = None, bitmapTable = Some bitmapExampleTable\<rparr>"
  let ?enc = "\<lparr>EncodingTable.format = 0, minCharOrByte2 = 0,
                    maxCharOrByte2 = 2, minByte1 = 0, maxByte1 = 0, defaultChar = 0,
                    glyphIndeces = [0, 1, 2]\<rparr>"
  have h2: "pcf bitmapExampleParser = Some ?p" by (simp add: bitmapExampleParser_def)
  have h3: "encodingTable ?p = Some ?enc" by simp
  have h4: "bitmapTable ?p = Some bitmapExampleTable" by simp
  have r: "rawBuffer bitmapExampleParser = bitmapExample" by (simp add: bitmapExampleParser_def)
  have g0: "getGlyphBitmap bitmapExampleParser 0 = Inr (bufferSlice bitmapExample (0 + 36) (8 + 36))"
    using glyph_bitmap_extent [OF bitmapExample_parse h2 h3 h4, of 0 0]
    by (simp add: r bitmapExampleTable_def)
  have g1: "getGlyphBitmap bitmapExampleParser 1 = Inr (bufferSlice bitmapExample (8 + 36) (20 + 36))"
    using glyph_bitmap_extent [OF bitmapExample_parse h2 h3 h4, of 1 1]
    by (simp add: r bitmapExampleTable_def)
  have g2: "getGlyphBitmap bitmapExampleParser 2 = Inr (bufferSlice bitmapExample (20 + 36) (32 + 36))"
    using glyph_bitmap_extent [OF bitmapExample_parse h2 h3 h4, of 2 2]
    by (simp add: r bitmapExampleTable_def)
  show ?thesis
    using bitmapExample_parse g0 g1 g2 by (simp add: bitmapExampleTable_def)
qed

text \<open>
  The size is not chosen by the format word the decoder is called with: a table whose own
  format word is 1, decoded under the directory format 0, gets the second size, 40, and
  its last glyph ends at \<open>40 + 36\<close> and not at \<open>32 + 36\<close>.
\<close>

theorem bitmap_size_selection_counterexample:
  "parseBitmapTable bitmapMismatchExample 0 0 =
     Inr \<lparr>BitmapTable.format = 1, glyphCount = 3, offsets = [0, 8, 20],
          bitmapSizes = [32, 40, 48, 56], bitmapSize = 40, bitmapsBaseOffset = 36\<rparr> \<and>
   [32, 40, 48, 56] ! ((0 :: nat) AND 3) = (32 :: nat) \<and>
   bitmapExtent \<lparr>BitmapTable.format = 1, glyphCount = 3, offsets = [0, 8, 20],
          bitmapSizes = [32, 40, 48, 56], bitmapSize = 40, bitmapsBaseOffset = 36\<rparr> (Some 2) =
     (Some (20 + 36), Some (40 + 36))"
  by (simp add: parseBitmapTable_eq bitmapMismatchExample_def fieldValue_0
      bufferSlice_def Let_def upt_small bitmapExtent_def arrayGet_def)

text \<open>
  C4, as the code has it. A code point whose index in the encoding table is outside
  \<open>[0, metricsCount)\<close> is skipped: the loop goes on to the next code point with the glyphs
  collected so far unchanged and without an exception, and the emitted sequence has no
  glyph for that code point (none is substituted). The index \<open>0xFFFF\<close> of an absent code
  point is such an index whenever the metrics count is at most \<open>0xFFFF\<close>; the loop has no
  test of its own for it.
\<close>

theorem out_of_range_index_skipped:
  assumes "pcf parser = Some p" and "encodingTable p = Some enc" and "metricsTable p = Some mt"
    and "c < length (glyphIndeces enc)" and "metricsCount mt \<le> glyphIndeces enc ! c"
  shows "convertLoop a gb parser c glyphs = convertLoop a gb parser (c + 1) glyphs \<and>
         (\<forall>gs. convertLoop a gb parser 0 [] = Inr gs \<longrightarrow> (\<forall>g \<in> set gs. code g \<noteq> c)) \<and>
         (glyphNameTable p \<noteq> None \<and> bitmapTable p \<noteq> None \<longrightarrow>
            (\<exists>gs. convertLoop a gb parser 0 [] = Inr gs \<and>
               map code gs =
                 filter (\<lambda>k. glyphIndeces enc ! k < metricsCount mt \<and> isAcceptedGlyph a gb k)
                   [0..<length (glyphIndeces enc)]))"
proof (intro conjI allI impI ballI)
  show "convertLoop a gb parser c glyphs = convertLoop a gb parser (c + 1) glyphs"
    by (rule convertLoop_skip [OF assms])
next
  fix gs g
  assume r: "convertLoop a gb parser 0 [] = Inr gs" and g: "g \<in> set gs"
  from convertLoop_codes [OF r assms(1-3) g]
  have "glyphIndeces enc ! code g < metricsCount mt" by simp
  then show "code g \<noteq> c" using assms(5) by auto
next
  assume "glyphNameTable p \<noteq> None \<and> bitmapTable p \<noteq> None"
  then obtain gn bt where "glyphNameTable p = Some gn" "bitmapTable p = Some bt" by auto
  then show "\<exists>gs. convertLoop a gb parser 0 [] = Inr gs \<and>
               map code gs =
                 filter (\<lambda>k. glyphIndeces enc ! k < metricsCount mt \<and> isAcceptedGlyph a gb k)
                   [0..<length (glyphIndeces enc)]"
    using convertLoop_all_codes [OF assms(1,2) _ assms(3)] by blast
qed

theorem out_of_range_index_skipped_witness:
  "metricsCount \<lparr>MetricsTable.format = 0, metricsCount = 1, metrics = [sentinelEntry]\<rparr>
     \<le> [0xFFFF, 0] ! 0 \<and>
   glyphNameTable (the (pcf skipParser)) \<noteq> None \<and> bitmapTable (the (pcf skipParser)) \<noteq> None \<and>
   convertLoop defaultArgv {} skipParser 0 [] = convertLoop defaultArgv {} skipParser (0 + 1) [] \<and>
   convertLoop defaultArgv {} skipParser 0 [] =
     Inr [\<lparr>code = 1, index = 0, GlyphInfo.name = Some [0x41],
           GlyphInfo.metrics = Some sentinelEntry, bitmap = [0x80, 0x00, 0x00, 0x00]\<rparr>]"
proof -
  let ?enc = "\<lparr>EncodingTable.format = 0, minCharOrByte2 = 0,
                    maxCharOrByte2 = 1, minByte1 = 0, maxByte1 = 0, defaultChar = 0,
                    glyphIndeces = [0xFFFF, 0]\<rparr>"
  let ?mt = "\<lparr>MetricsTable.format = 0, metricsCount = 1, metrics = [sentinelEntry]\<rparr>"
  let ?p = "\<lparr>header = magic, tableCount = 0, tocEntry = [],
                  glyphNameTable = Some \<lparr>GlyphNameTable.format = 0, glyphCount = 1, offsets = [0],
                    stringSize = 2, strings = [[0x41]]\<rparr>,
                  encodingTable = Some ?enc,
                  metricsTable = Some ?mt,
                  bitmapTable = Some \<lparr>BitmapTable.format = 0, glyphCount = 1, offsets = [0],
                    bitmapSizes = [4, 4, 4, 4], bitmapSize = 4, bitmapsBaseOffset = 0\<rparr>\<rparr>"
  have h1: "pcf skipParser = Some ?p" by (simp add: skipParser_def)
  have h2: "encodingTable ?p = Some ?enc" by simp
  have h3: "metricsTable ?p = Some ?mt" by simp
  have h4: "0 < length (glyphIndeces ?enc)" by simp
  have h5: "metricsCount ?mt \<le> glyphIndeces ?enc ! 0" by simp
  have h6: "glyphNameTable (the (pcf skipParser)) \<noteq> None \<and>
      bitmapTable (the (pcf skipParser)) \<noteq> None"
    by (simp add: skipParser_def)
  from out_of_range_index_skipped [OF h1 h2 h3 h4 h5, of defaultArgv "{}" "[]"]
  have "convertLoop defaultArgv {} skipParser 0 [] = convertLoop defaultArgv {} skipParser (0 + 1) []"
    by blast
  then show ?thesis using skipParser_run h6 by simp
qed

text \<open>
  The index \<open>0xFFFF\<close> alone does not exclude a code point. In a file whose metrics table has
  \<open>0x10000\<close> entries and whose encoding table maps the code point 0 to the index 0 and the
  code point 1 to \<open>0xFFFF\<close>, the loop emits a glyph for both.
\<close>

theorem sentinel_index_counterexample:
  "map_sum id (map code) (convertGlyphs defaultArgv {} sentinelFile) = Inr [0, 1] \<and>
   map_sum id (map index) (convertGlyphs defaultArgv {} sentinelFile) = Inr [0, 0xFFFF]"
proof -
  obtain gs where g: "convertGlyphs defaultArgv {} sentinelFile = Inr gs"
    and m: "map (\<lambda>g. (code g, index g)) gs = [(0, 0), (1, 0xFFFF)]"
    using sf_glyphs by auto
  have "map code gs = map fst (map (\<lambda>g. (code g, index g)) gs)" by (simp add: o_def)
  moreover have "map index gs = map snd (map (\<lambda>g. (code g, index g)) gs)" by (simp add: o_def)
  ultimately show ?thesis unfolding m g by simp
qed




text \<open>
  C6. A buffer whose first 4 bytes are not the signature \<open>01 66 63 70\<close> is not parsed:
  \<open>parse\<close> fails, either in reading the directory (a read outside the buffer) or with the
  signature exception, and its result is fixed by the directory alone, without any table
  decoder; so nothing is returned, and a parse that returns tables had the signature. The
  parser object holds the buffer and at most the directory, and no table.
\<close>

theorem bad_magic_fails:
  assumes "take 4 buf \<noteq> magic"
  shows "snd (parse buf) =
           (case mainParser buf of Inl e \<Rightarrow> Inl e
            | Inr m \<Rightarrow> Inl (Error ''Not a valid PCF file.'')) \<and>
         (snd (parse buf) = Inl RangeError \<or>
          snd (parse buf) = Inl (Error ''Not a valid PCF file.'')) \<and>
         (\<forall>p. snd (parse buf) \<noteq> Inr p) \<and>
         (\<exists>e. convert a gb buf = Inl e) \<and>
         fst (parse buf) =
           \<lparr>rawBuffer = buf,
            pcf = (case mainParser buf of Inl e \<Rightarrow> None | Inr m \<Rightarrow> Some m)\<rparr> \<and>
         (\<forall>p. pcf (fst (parse buf)) = Some p \<longrightarrow>
            glyphNameTable p = None \<and> encodingTable p = None \<and> metricsTable p = None \<and>
            bitmapTable p = None)"
proof -
  have p: "snd (parse buf) =
           (case mainParser buf of Inl e \<Rightarrow> Inl e
            | Inr m \<Rightarrow> Inl (Error ''Not a valid PCF file.''))"
  proof (cases "mainParser buf")
    case (Inl e)
    then show ?thesis by (simp add: parse_def)
  next
    case (Inr m)
    then show ?thesis using assms mainParser_header [OF Inr] by (simp add: parse_def)
  qed
  have o: "fst (parse buf) =
           \<lparr>rawBuffer = buf,
            pcf = (case mainParser buf of Inl e \<Rightarrow> None | Inr m \<Rightarrow> Some m)\<rparr>"
  proof (cases "mainParser buf")
    case (Inl e)
    then show ?thesis by (simp add: parse_def)
  next
    case (Inr m)
    then show ?thesis using assms mainParser_header [OF Inr] by (simp add: parse_def)
  qed
  have q: "snd (parse buf) = Inl RangeError \<or>
      snd (parse buf) = Inl (Error ''Not a valid PCF file.'')"
    unfolding p using mainParser_error [of buf] by (cases "mainParser buf") auto
  have r: "\<forall>p. snd (parse buf) \<noteq> Inr p" using q by auto
  have s: "\<exists>e. convert a gb buf = Inl e" using q convert_fail by blast
  have t: "\<forall>p. pcf (fst (parse buf)) = Some p \<longrightarrow>
            glyphNameTable p = None \<and> encodingTable p = None \<and> metricsTable p = None \<and>
            bitmapTable p = None"
    unfolding o by (auto simp: mainParser_eq split: if_splits)
  show ?thesis using p q r s o t by blast
qed

theorem bad_magic_fails_witness:
  "take 4 badMagicExample \<noteq> magic \<and>
   snd (parse badMagicExample) = Inl (Error ''Not a valid PCF file.'') \<and>
   fst (parse badMagicExample) =
     \<lparr>rawBuffer = badMagicExample,
      pcf = Some \<lparr>header = [0x00, 0x66, 0x63, 0x70], tableCount = 0, tocEntry = [],
        glyphNameTable = None, encodingTable = None, metricsTable = None,
        bitmapTable = None\<rparr>\<rparr>"
proof -
  have h: "take 4 badMagicExample \<noteq> magic"
    by (simp add: badMagicExample_def magic_def)
  have m: "mainParser badMagicExample =
     Inr \<lparr>header = [0x00, 0x66, 0x63, 0x70], tableCount = 0, tocEntry = [],
          glyphNameTable = None, encodingTable = None, metricsTable = None, bitmapTable = None\<rparr>"
    by (simp add: mainParser_eq badMagicExample_def bufferSlice_def)
  show ?thesis
    using bad_magic_fails [OF h, of defaultArgv "{}"] h m by simp
qed

text \<open>
  C7, as the code has it. For a pixel height from 1 to 222, where the padding
  \<open>pixelSize / 9\<close> is more than 1/2, and any of the three dot shapes, vectorizing a 1-row
  bitmap whose only set bit is at row 0, column 0 (character width 1) gives exactly one
  sub-path, which ends at its start point, and all of whose points (control points
  included) lie strictly inside the nominal cell of that pixel. The outline is the dot
  shape drawn on the four sides of the cell moved inwards by the padding and rounded to
  integers, so each of these sides is separated from its edge of the cell by the padding to
  within 1/2, and so is each side of the bounding box of the points of the outline. From
  the height 223 on, the rounding can put a corner on the edge of the cell.
\<close>

theorem single_pixel_outline:
  assumes "1 \<le> glyph_size_in_pixel a" and "glyph_size_in_pixel a \<le> 222"
    and "dot_shape a = ''square'' \<or> dot_shape a = ''circle'' \<or> dot_shape a = ''diamond''"
    and "GlyphInfo.metrics g = Some m" and "characterWidth m = 1"
    and "bitmap g = [0x80, 0x00, 0x00, 0x00]"
  shows "case vectorizeGlyph a g of
           Inl e \<Rightarrow> False
         | Inr fg \<Rightarrow>
             subPathCount (path fg) = 1 \<and> subPathsClosed None None (path fg) \<and>
             (\<forall>pt \<in> set (pathPoints (path fg)). strictlyInsideCell a m 0 0 pt) \<and>
             path fg = closePath (drawDot a [] (dotLeft a m 0) (dotTop a m 0)
                                    (dotRight a m 0) (dotBottom a m 0)) \<and>
             \<bar>(dotLeft a m 0 - cellLeft a m 0) - PIXEL_PADDING a\<bar> \<le> 1 / 2 \<and>
             \<bar>(cellRight a m 0 - dotRight a m 0) - PIXEL_PADDING a\<bar> \<le> 1 / 2 \<and>
             \<bar>(cellTop a m 0 - dotTop a m 0) - PIXEL_PADDING a\<bar> \<le> 1 / 2 \<and>
             \<bar>(dotBottom a m 0 - cellBottom a m 0) - PIXEL_PADDING a\<bar> \<le> 1 / 2 \<and>
             paddedInCell a m 0 0 (1 / 2) (pathPoints (path fg))"
proof -
  define X where "X = of_int (leftSidedBearing m) * PIXEL_SIZE a"
  define Y where "Y = (DEFAULT_ASCENT_IN_PIXELS a - of_int (characterAscent m)) * PIXEL_SIZE a"
  define gt where "gt = PIXEL_HEIGHT a * PIXEL_SIZE a - DESCENDER_HEIGHT a"
  define dot where "dot = drawDot a []
      (Math_round (X + PIXEL_SIZE a / 9)) (Math_round (gt - (Y + PIXEL_SIZE a / 9)))
      (Math_round (X + PIXEL_SIZE a - PIXEL_SIZE a / 9))
      (Math_round (gt - (Y + PIXEL_SIZE a - PIXEL_SIZE a / 9)))"
  have ps: "9 / 2 < PIXEL_SIZE a" by (rule pixel_size_bound [OF assms(1,2)])
  have v: "vectorizeGlyph a g =
     Inr \<lparr>FontGlyph.name = GlyphInfo.name g, unicode = code g,
          advanceWidth = of_int 1 * PIXEL_SIZE a, path = closePath dot\<rparr>"
    unfolding single_glyph [OF assms(4-6)] X_def [symmetric] Y_def [symmetric] gt_def [symmetric]
      single_dots dot_def ..
  have cell: "strictlyInsideCell a m 0 0 pt =
      insideBox X (X + PIXEL_SIZE a) (gt - Y - PIXEL_SIZE a) (gt - Y) pt" for pt
    by (simp add: strictlyInsideCell_def cellLeft_def cellRight_def cellTop_def cellBottom_def
        X_def Y_def gt_def)
  have sides: "cellLeft a m 0 + PIXEL_PADDING a = X + PIXEL_SIZE a / 9"
    "cellRight a m 0 - PIXEL_PADDING a = X + PIXEL_SIZE a - PIXEL_SIZE a / 9"
    "cellTop a m 0 - PIXEL_PADDING a = gt - Y - PIXEL_SIZE a / 9"
    "cellBottom a m 0 + PIXEL_PADDING a = gt - Y - PIXEL_SIZE a + PIXEL_SIZE a / 9"
    by (simp_all add: cellLeft_def cellRight_def cellTop_def cellBottom_def PIXEL_PADDING_def
        X_def Y_def gt_def)
  have args: "gt - (Y + PIXEL_SIZE a / 9) = gt - Y - PIXEL_SIZE a / 9"
    "gt - (Y + PIXEL_SIZE a - PIXEL_SIZE a / 9) = gt - Y - PIXEL_SIZE a + PIXEL_SIZE a / 9"
    by simp_all
  have c1: "subPathCount (closePath dot) = 1"
    unfolding dot_def by (rule dot_counts(1) [OF assms(3)])
  have c2: "subPathsClosed None None (closePath dot)"
    unfolding dot_def by (rule dot_counts(2) [OF assms(3)])
  have c3: "\<forall>pt \<in> set (pathPoints (closePath dot)). strictlyInsideCell a m 0 0 pt"
    unfolding cell pathPoints_closePath dot_def by (rule dot_inside [OF ps assms(3)])
  have c4: "closePath dot = closePath (drawDot a [] (dotLeft a m 0) (dotTop a m 0)
                                    (dotRight a m 0) (dotBottom a m 0))"
    unfolding dot_def dotLeft_def dotTop_def dotRight_def dotBottom_def sides args ..
  have c5: "\<bar>(dotLeft a m 0 - cellLeft a m 0) - PIXEL_PADDING a\<bar> \<le> 1 / 2"
    using Math_round_gap [of "cellLeft a m 0 + PIXEL_PADDING a"] unfolding dotLeft_def by argo
  have c6: "\<bar>(cellRight a m 0 - dotRight a m 0) - PIXEL_PADDING a\<bar> \<le> 1 / 2"
    using Math_round_gap [of "cellRight a m 0 - PIXEL_PADDING a"] unfolding dotRight_def by argo
  have c7: "\<bar>(cellTop a m 0 - dotTop a m 0) - PIXEL_PADDING a\<bar> \<le> 1 / 2"
    using Math_round_gap [of "cellTop a m 0 - PIXEL_PADDING a"] unfolding dotTop_def by argo
  have c8: "\<bar>(dotBottom a m 0 - cellBottom a m 0) - PIXEL_PADDING a\<bar> \<le> 1 / 2"
    using Math_round_gap [of "cellBottom a m 0 + PIXEL_PADDING a"] unfolding dotBottom_def by argo
  have c9: "paddedInCell a m 0 0 (1 / 2) (pathPoints (closePath dot))"
    unfolding paddedInCell_def sides pathPoints_closePath dot_def
    by (rule dot_padded [OF ps assms(3)])
  show ?thesis unfolding v using c1 c2 c3 c4 c5 c6 c7 c8 c9 by simp
qed

theorem single_pixel_outline_witness:
  "(1 :: int) \<le> 13 \<and> (13 :: int) \<le> 222 \<and>
   vectorizeGlyph defaultArgv (singlePixelGlyph 11) =
     Inr \<lparr>FontGlyph.name = None, unicode = 0x41, advanceWidth = 1000 / 13,
          path = [MoveTo 9 761, LineTo 9 701, LineTo 68 701, LineTo 68 761, LineTo 9 761,
                  ClosePath]\<rparr> \<and>
   subPathCount [MoveTo 9 761, LineTo 9 701, LineTo 68 701, LineTo 68 761, LineTo 9 761,
                 ClosePath] = 1 \<and>
   strictlyInsideCell defaultArgv (singlePixelMetrics 11) 0 0 (9, 761) \<and>
   strictlyInsideCell defaultArgv (singlePixelMetrics 11) 0 0 (68, 701) \<and>
   cellLeft defaultArgv (singlePixelMetrics 11) 0 = 0 \<and>
   cellRight defaultArgv (singlePixelMetrics 11) 0 = 1000 / 13 \<and>
   cellTop defaultArgv (singlePixelMetrics 11) 0 = 10000 / 13 \<and>
   cellBottom defaultArgv (singlePixelMetrics 11) 0 = 9000 / 13 \<and>
   PIXEL_PADDING defaultArgv = 1000 / 117 \<and>
   dotLeft defaultArgv (singlePixelMetrics 11) 0 = 9 \<and>
   dotRight defaultArgv (singlePixelMetrics 11) 0 = 68 \<and>
   dotTop defaultArgv (singlePixelMetrics 11) 0 = 761 \<and>
   dotBottom defaultArgv (singlePixelMetrics 11) 0 = 701 \<and>
   \<bar>((9 :: real) - 0) - 1000 / 117\<bar> \<le> 1 / 2 \<and>
   \<bar>((1000 :: real) / 13 - 68) - 1000 / 117\<bar> \<le> 1 / 2 \<and>
   \<bar>((10000 :: real) / 13 - 761) - 1000 / 117\<bar> \<le> 1 / 2 \<and>
   \<bar>((701 :: real) - 9000 / 13) - 1000 / 117\<bar> \<le> 1 / 2"
proof -
  have h1: "1 \<le> glyph_size_in_pixel defaultArgv" "glyph_size_in_pixel defaultArgv \<le> 222"
    by (simp_all add: defaultArgv_def)
  have h3: "dot_shape defaultArgv = ''square'' \<or> dot_shape defaultArgv = ''circle'' \<or>
      dot_shape defaultArgv = ''diamond''"
    by (simp add: defaultArgv_def)
  have h4: "GlyphInfo.metrics (singlePixelGlyph 11) = Some (singlePixelMetrics 11)"
    "characterWidth (singlePixelMetrics 11) = 1"
    "bitmap (singlePixelGlyph 11) = [0x80, 0x00, 0x00, 0x00]"
    by (simp_all add: singlePixelGlyph_def singlePixelMetrics_def)
  have cells: "cellLeft defaultArgv (singlePixelMetrics 11) 0 = 0"
    "cellRight defaultArgv (singlePixelMetrics 11) 0 = 1000 / 13"
    "cellTop defaultArgv (singlePixelMetrics 11) 0 = 10000 / 13"
    "cellBottom defaultArgv (singlePixelMetrics 11) 0 = 9000 / 13"
    by (simp_all add: cellLeft_def cellRight_def cellTop_def cellBottom_def argv_sizes
        singlePixelMetrics_def)
  have dots: "dotLeft defaultArgv (singlePixelMetrics 11) 0 = 9"
    "dotRight defaultArgv (singlePixelMetrics 11) 0 = 68"
    "dotTop defaultArgv (singlePixelMetrics 11) 0 = 761"
    "dotBottom defaultArgv (singlePixelMetrics 11) 0 = 701"
    by (simp_all add: dotLeft_def dotRight_def dotTop_def dotBottom_def cells argv_sizes
        Math_round_def)
  from single_pixel_outline [OF h1 h3 h4]
  show ?thesis
    by (simp add: single_default pathPoints_def cells dots argv_sizes drawDot_def argv_shapes
        drawSquareDot_def moveTo_def lineTo_def closePath_def Let_def)
qed

text \<open>
  At the pixel height 223 the padding is \<open>1000 / 2007\<close>, less than 1/2, and the left side of
  the dot is rounded to 0, the left edge of the cell.
\<close>

theorem single_pixel_outline_counterexample:
  "vectorizeGlyph argv223 (singlePixelGlyph 221) =
     Inr \<lparr>FontGlyph.name = None, unicode = 0x41, advanceWidth = 1000 / 223,
          path = [MoveTo 0 986, LineTo 0 983, LineTo 4 983, LineTo 4 986, LineTo 0 986,
                  ClosePath]\<rparr> \<and>
   cellLeft argv223 (singlePixelMetrics 221) 0 = 0 \<and>
   \<not> strictlyInsideCell argv223 (singlePixelMetrics 221) 0 0 (0, 986)"
  by (simp add: vectorizeGlyph_def singlePixelGlyph_def singlePixelMetrics_def single_lines
      argv_sizes BLACK_PIXEL_def dotCorners_def ScreenXyToFontXy_def Math_round_def drawDot_def
      argv_shapes drawSquareDot_def moveTo_def lineTo_def closePath_def Let_def
      strictlyInsideCell_def insideBox_def cellLeft_def)

text \<open>
  C8. \<open>isAcceptedGlyph\<close> is a function of the code point and of the policy alone (the
  GB2312 set being fixed): two command lines with the same policy accept the same code
  points. The full policy accepts every code point, and a code point in \<open>[0x20, 0xFF]\<close> is
  accepted under the ASCII-only policy and under the ASCII plus GB2312 policy.
\<close>

theorem filter_accepts:
  "(policy a = policy a' \<longrightarrow> isAcceptedGlyph a gb c = isAcceptedGlyph a' gb c) \<and>
   (policy a = Full \<longrightarrow> isAcceptedGlyph a gb c) \<and>
   (0x20 \<le> c \<and> c \<le> 0xFF \<longrightarrow>
      (policy a = AsciiOnly \<longrightarrow> isAcceptedGlyph a gb c) \<and>
      (policy a = AsciiPlusGb2312 \<longrightarrow> isAcceptedGlyph a gb c)) \<and>
   (policy a = AsciiOnly \<longrightarrow> isAcceptedGlyph a gb c = (0x20 \<le> c \<and> c \<le> 0xFF)) \<and>
   (policy a = AsciiPlusGb2312 \<longrightarrow>
      isAcceptedGlyph a gb c = (0x20 \<le> c \<and> c \<le> 0xFF \<or> c \<in> gb))"
  by (auto simp: policy_def isAcceptedGlyph_def ASCII_SET_eq split: if_splits)

theorem filter_accepts_witness:
  "policy defaultArgv = Full \<and> isAcceptedGlyph defaultArgv {} 0x4E2D \<and>
   (0x20 :: nat) \<le> 0x41 \<and> (0x41 :: nat) \<le> 0xFF \<and>
   policy dryRunArgv = AsciiOnly \<and> isAcceptedGlyph dryRunArgv {} 0x41 \<and>
   policy gb2312Argv = AsciiPlusGb2312 \<and> isAcceptedGlyph gb2312Argv {} 0x41 \<and>
   policy dryRunArgv = policy (dryRunArgv\<lparr>dot_shape := ''diamond''\<rparr>) \<and>
   isAcceptedGlyph dryRunArgv {} 0x4E2D =
     isAcceptedGlyph (dryRunArgv\<lparr>dot_shape := ''diamond''\<rparr>) {} 0x4E2D"
proof -
  have p1: "policy defaultArgv = Full" by (simp add: policy_def defaultArgv_def)
  have p2: "policy dryRunArgv = AsciiOnly" by (simp add: policy_def dryRunArgv_def)
  have p3: "policy gb2312Argv = AsciiPlusGb2312" by (simp add: policy_def gb2312Argv_def)
  have p4: "policy dryRunArgv = policy (dryRunArgv\<lparr>dot_shape := ''diamond''\<rparr>)"
    by (simp add: policy_def dryRunArgv_def)
  have r: "(0x20 :: nat) \<le> 0x41 \<and> (0x41 :: nat) \<le> 0xFF" by simp
  from filter_accepts [of defaultArgv defaultArgv "{}" "0x4E2D"] p1
  have c1: "isAcceptedGlyph defaultArgv {} 0x4E2D" by blast
  from filter_accepts [of dryRunArgv dryRunArgv "{}" "0x41"] p2 r
  have c2: "isAcceptedGlyph dryRunArgv {} 0x41" by blast
  from filter_accepts [of gb2312Argv gb2312Argv "{}" "0x41"] p3 r
  have c3: "isAcceptedGlyph gb2312Argv {} 0x41" by blast
  from filter_accepts [of dryRunArgv "dryRunArgv\<lparr>dot_shape := ''diamond''\<rparr>" "{}" "0x4E2D"] p4
  have c4: "isAcceptedGlyph dryRunArgv {} 0x4E2D =
     isAcceptedGlyph (dryRunArgv\<lparr>dot_shape := ''diamond''\<rparr>) {} 0x4E2D" by blast
  show ?thesis using p1 p2 p3 p4 c1 c2 c3 c4 by simp
qed



text \<open>
  C10. Unpacking a bitmap buffer is total and gives one line per started row of 4 bytes,
  \<open>\<lceil>length / 4\<rceil>\<close> lines in all, the last one also when the buffer ends inside it; a black
  pixel of a line always comes from a byte inside the buffer, so the positions after the
  end of the buffer give no black pixel.
\<close>

theorem unpacked_lines:
  "length (bitmapToBinaryLines bm width) = (length bm + 3) div 4 \<and>
   int (length (bitmapToBinaryLines bm width)) = \<lceil>real (length bm) / 4\<rceil> \<and>
   (\<forall>y < length (bitmapToBinaryLines bm width).
      \<forall>x < length (bitmapToBinaryLines bm width ! y).
        bitmapToBinaryLines bm width ! y ! x = BLACK_PIXEL \<longrightarrow>
          4 * y + x div 8 < length bm)"
proof (intro conjI allI impI)
  show len: "length (bitmapToBinaryLines bm width) = (length bm + 3) div 4"
    by (simp add: bitmapToBinaryLines_eq)
  show "int (length (bitmapToBinaryLines bm width)) = \<lceil>real (length bm) / 4\<rceil>"
    by (simp add: len ceiling_quarter)
  fix y x
  assume y: "y < length (bitmapToBinaryLines bm width)"
    and x: "x < length (bitmapToBinaryLines bm width ! y)"
    and b: "bitmapToBinaryLines bm width ! y ! x = BLACK_PIXEL"
  have line: "bitmapToBinaryLines bm width ! y = sliceFromStart (binaryLine bm (4 * y)) width"
    using y unfolding len by (simp add: bitmapToBinaryLines_eq)
  have x32: "x < 32"
    using sliceFromStart_prefix(1) [of x "binaryLine bm (4 * y)" width] x
    by (simp add: line binaryLine_length)
  have "binaryLine bm (4 * y) ! x = BLACK_PIXEL"
    using sliceFromStart_prefix(2) [of x "binaryLine bm (4 * y)" width] x b
    by (simp add: line)
  then show "4 * y + x div 8 < length bm"
    by (rule binaryLine_black [OF x32])
qed

theorem unpacked_lines_witness:
  "bitmapToBinaryLines partialRowExample 9 = [''#________'', ''########_''] \<and>
   length (bitmapToBinaryLines partialRowExample 9) = (length partialRowExample + 3) div 4 \<and>
   (1 :: nat) < length (bitmapToBinaryLines partialRowExample 9) \<and>
   (0 :: nat) < length (bitmapToBinaryLines partialRowExample 9 ! 1) \<and>
   bitmapToBinaryLines partialRowExample 9 ! 1 ! 0 = BLACK_PIXEL \<and>
   4 * 1 + 0 div 8 < length partialRowExample"
proof -
  note T = unpacked_lines [of partialRowExample 9]
  have h1: "(1 :: nat) < length (bitmapToBinaryLines partialRowExample 9)"
    by (simp add: partialRowExample_lines)
  have h2: "(0 :: nat) < length (bitmapToBinaryLines partialRowExample 9 ! 1)"
    by (simp add: partialRowExample_lines)
  have h3: "bitmapToBinaryLines partialRowExample 9 ! 1 ! 0 = BLACK_PIXEL"
    by (simp add: partialRowExample_lines BLACK_PIXEL_def)
  from T have "length (bitmapToBinaryLines partialRowExample 9) = (length partialRowExample + 3) div 4"
    by blast
  moreover from T h1 h2 h3 have "4 * 1 + 0 div 8 < length partialRowExample"
    by blast
  ultimately show ?thesis using h1 h2 h3 partialRowExample_lines by simp
qed

end
